theory Spec2Isabelle
  imports Main "HOL-Library.AList"
begin

section \<open>Dependency graph of the file watcher\<close>

text \<open>
  The watcher keeps two JavaScript \<^verbatim>\<open>Map<string, Set<string>>\<close> objects,
  \<^verbatim>\<open>dependencyGraph\<close> and \<^verbatim>\<open>reverseDependencyGraph\<close>. A \<^verbatim>\<open>Map\<close> is
  modelled as an association list in insertion order, a \<^verbatim>\<open>Set\<close> as a list in
  insertion order without repetition.
\<close>

type_synonym path = string
type_synonym path_set = "path list"
type_synonym graph = "(path \<times> path_set) list"

text \<open>\<^verbatim>\<open>Set.prototype.add\<close>: a member is not added a second time.\<close>

definition set_add :: "'a \<Rightarrow> 'a list \<Rightarrow> 'a list" where
  "set_add x xs = (if x \<in> set xs then xs else xs @ [x])"

text \<open>\<^verbatim>\<open>Map.prototype.has\<close>, \<^verbatim>\<open>get\<close> and \<^verbatim>\<open>set\<close>.\<close>

definition map_has :: "graph \<Rightarrow> path \<Rightarrow> bool" where
  "map_has g k = (map_of g k \<noteq> None)"

definition map_get :: "graph \<Rightarrow> path \<Rightarrow> path_set option" where
  "map_get g k = map_of g k"

definition map_set :: "graph \<Rightarrow> path \<Rightarrow> path_set \<Rightarrow> graph" where
  "map_set g k v = AList.update k v g"

text \<open>
  The members of \<^verbatim>\<open>g.get(k)\<close>, read as the empty set where the key is absent
  (\<^verbatim>\<open>g.get(k) || new Set()\<close>).
\<close>

definition members :: "graph \<Rightarrow> path \<Rightarrow> path set" where
  "members g k = (case map_get g k of None \<Rightarrow> {} | Some s \<Rightarrow> set s)"

text \<open>
  The value \<^verbatim>\<open>dependencyTree(...)\<close> returns: an object whose keys are file names and
  whose values are again such objects. \<open>NonObject\<close> stands for every value that fails the
  test \<^verbatim>\<open>typeof v === 'object' && v !== null\<close>.
\<close>

datatype jsval = Obj "(string \<times> jsval) list" | NonObject

text \<open>
  The body of the \<^verbatim>\<open>forEach\<close> callback in \<^verbatim>\<open>addDependencies\<close>, up to the recursive
  call: the state is the local set \<^verbatim>\<open>dependencies\<close> and the reverse graph.
\<close>

definition add_edge :: "(string \<Rightarrow> path) \<Rightarrow> path \<Rightarrow> string \<Rightarrow> path_set \<times> graph \<Rightarrow> path_set \<times> graph" where
  "add_edge resolve file dep st =
     (let resolvedDep = resolve dep;
          dependencies = set_add resolvedDep (fst st);
          rev1 = (if \<not> map_has (snd st) resolvedDep then map_set (snd st) resolvedDep [] else snd st);
          rev2 = (case map_get rev1 resolvedDep of
                    Some s \<Rightarrow> map_set rev1 resolvedDep (set_add file s)
                  | None \<Rightarrow> rev1)
      in (dependencies, rev2))"

text \<open>
  \<^verbatim>\<open>traverse\<close>: \<open>traverse\<close> is the function on a value, \<open>traverse_keys\<close> the
  \<^verbatim>\<open>Object.keys(obj).forEach\<close> loop.
\<close>

fun traverse :: "(string \<Rightarrow> path) \<Rightarrow> path \<Rightarrow> jsval \<Rightarrow> path_set \<times> graph \<Rightarrow> path_set \<times> graph"
  and traverse_keys :: "(string \<Rightarrow> path) \<Rightarrow> path \<Rightarrow> (string \<times> jsval) list \<Rightarrow> path_set \<times> graph \<Rightarrow> path_set \<times> graph"
  where
  "traverse resolve file (Obj kvs) st = traverse_keys resolve file kvs st"
| "traverse resolve file NonObject st = st"
| "traverse_keys resolve file [] st = st"
| "traverse_keys resolve file ((dep, depValue) # kvs) st =
     traverse_keys resolve file kvs (traverse resolve file depValue (add_edge resolve file dep st))"

text \<open>The state of the watcher that the graph operations touch.\<close>

record watcher_graphs =
  dependencyGraph :: graph
  reverseDependencyGraph :: graph

definition addDependencies :: "(string \<Rightarrow> path) \<Rightarrow> path \<Rightarrow> jsval \<Rightarrow> watcher_graphs \<Rightarrow> watcher_graphs" where
  "addDependencies resolve file deps w =
     (let st = traverse resolve file deps ([], reverseDependencyGraph w)
      in \<lparr> dependencyGraph = map_set (dependencyGraph w) file (fst st),
           reverseDependencyGraph = snd st \<rparr>)"

text \<open>
  \<^verbatim>\<open>buildDependencyGraph\<close>: both maps are cleared, then every entry point is analysed.
  \<open>dependencyTree\<close> is the library call, \<open>None\<close> where it throws; the \<^verbatim>\<open>catch\<close> block
  only logs, so such an entry point leaves the graphs as they were.
\<close>

definition process_entry :: "(string \<Rightarrow> path) \<Rightarrow> (path \<Rightarrow> jsval option) \<Rightarrow> watcher_graphs \<Rightarrow> path \<Rightarrow> watcher_graphs" where
  "process_entry resolve dependencyTree w entryPoint =
     (case dependencyTree entryPoint of
        None \<Rightarrow> w
      | Some dependencies \<Rightarrow> addDependencies resolve entryPoint dependencies w)"

definition buildDependencyGraph :: "(string \<Rightarrow> path) \<Rightarrow> (path \<Rightarrow> jsval option) \<Rightarrow> path list \<Rightarrow> watcher_graphs" where
  "buildDependencyGraph resolve dependencyTree entryPoints =
     foldl (process_entry resolve dependencyTree)
       \<lparr> dependencyGraph = [], reverseDependencyGraph = [] \<rparr> entryPoints"

subsection \<open>The reverse graph is the transpose of the forward graph\<close>

text \<open>The resolved keys that occur anywhere in a dependency tree.\<close>

fun tree_keys :: "(string \<Rightarrow> path) \<Rightarrow> jsval \<Rightarrow> path set"
  and tree_keys_list :: "(string \<Rightarrow> path) \<Rightarrow> (string \<times> jsval) list \<Rightarrow> path set"
  where
  "tree_keys resolve (Obj kvs) = tree_keys_list resolve kvs"
| "tree_keys resolve NonObject = {}"
| "tree_keys_list resolve [] = {}"
| "tree_keys_list resolve ((dep, depValue) # kvs) =
     insert (resolve dep) (tree_keys resolve depValue \<union> tree_keys_list resolve kvs)"

lemma set_set_add: "set (set_add x xs) = insert x (set xs)"
  by (auto simp: set_add_def)

lemma members_map_set:
  "members (map_set g k v) k' = (if k' = k then set v else members g k')"
  by (simp add: members_def map_get_def map_set_def update_conv')

lemma members_Nil: "members [] k = {}"
  by (simp add: members_def map_get_def)

lemma add_edge_fst: "set (fst (add_edge r fl dep st)) = insert (r dep) (set (fst st))"
  by (simp add: add_edge_def Let_def set_set_add)

lemma add_edge_snd:
  "members (snd (add_edge r fl dep st)) k =
     members (snd st) k \<union> (if k = r dep then {fl} else {})"
  by (auto simp: add_edge_def Let_def map_has_def map_get_def map_set_def members_def
      update_conv' set_set_add split: option.splits)

lemma traverse_fst:
  "set (fst (traverse r fl v st)) = set (fst st) \<union> tree_keys r v"
  "set (fst (traverse_keys r fl kvs st)) = set (fst st) \<union> tree_keys_list r kvs"
  by (induction r fl v st and r fl kvs st rule: traverse_traverse_keys.induct)
     (auto simp: add_edge_fst)

lemma traverse_snd:
  "members (snd (traverse r fl v st)) k =
     members (snd st) k \<union> (if k \<in> tree_keys r v then {fl} else {})"
  "members (snd (traverse_keys r fl kvs st)) k =
     members (snd st) k \<union> (if k \<in> tree_keys_list r kvs then {fl} else {})"
  by (induction r fl v st and r fl kvs st rule: traverse_traverse_keys.induct)
     (simp_all add: add_edge_snd)

text \<open>The entry points whose analysis did not throw, and the dependency set of one.\<close>

definition analysed :: "(path \<Rightarrow> jsval option) \<Rightarrow> path list \<Rightarrow> path set" where
  "analysed dependencyTree entryPoints = {e \<in> set entryPoints. dependencyTree e \<noteq> None}"

definition deps_of :: "(string \<Rightarrow> path) \<Rightarrow> (path \<Rightarrow> jsval option) \<Rightarrow> path \<Rightarrow> path set" where
  "deps_of resolve dependencyTree e =
     (case dependencyTree e of None \<Rightarrow> {} | Some t \<Rightarrow> tree_keys resolve t)"

lemma process_entry_forward:
  "members (dependencyGraph (process_entry resolve dt w e)) a =
     (if a = e \<and> dt e \<noteq> None then deps_of resolve dt e else members (dependencyGraph w) a)"
  by (auto simp: process_entry_def addDependencies_def Let_def members_map_set deps_of_def
      traverse_fst split: option.splits)

lemma process_entry_reverse:
  "members (reverseDependencyGraph (process_entry resolve dt w e)) b =
     members (reverseDependencyGraph w) b \<union> (if b \<in> deps_of resolve dt e then {e} else {})"
  by (auto simp: process_entry_def addDependencies_def Let_def deps_of_def
      traverse_snd split: option.splits)

lemma foldl_process_entry:
  "members (dependencyGraph (foldl (process_entry resolve dt) w es)) a =
     (if a \<in> set es \<and> dt a \<noteq> None then deps_of resolve dt a else members (dependencyGraph w) a)"
  "members (reverseDependencyGraph (foldl (process_entry resolve dt) w es)) b =
     members (reverseDependencyGraph w) b \<union> {e \<in> set es. b \<in> deps_of resolve dt e}"
  by (induction es arbitrary: w) (auto simp: process_entry_forward process_entry_reverse)

lemma build_forward:
  "members (dependencyGraph (buildDependencyGraph resolve dt es)) a =
     (if a \<in> set es then deps_of resolve dt a else {})"
  by (auto simp: buildDependencyGraph_def foldl_process_entry members_Nil deps_of_def)

lemma build_reverse:
  "members (reverseDependencyGraph (buildDependencyGraph resolve dt es)) b =
     {e \<in> set es. b \<in> deps_of resolve dt e}"
  by (simp add: buildDependencyGraph_def foldl_process_entry members_Nil)

text \<open>
  Claim C5. After every build or rebuild of the dependency graph the reverse mapping is
  the exact transpose of the forward mapping: for all files \<open>a\<close> and \<open>b\<close>, \<open>b\<close> is in the
  forward set of \<open>a\<close> if and only if \<open>a\<close> is in the reverse set of \<open>b\<close>. A rebuild is the
  same call of \<^verbatim>\<open>buildDependencyGraph\<close>, which clears both maps first.
\<close>

theorem reverse_is_transpose_of_forward:
  "(b \<in> members (dependencyGraph (buildDependencyGraph resolve dependencyTree entryPoints)) a) =
   (a \<in> members (reverseDependencyGraph (buildDependencyGraph resolve dependencyTree entryPoints)) b)"
  by (simp add: build_forward build_reverse)

text \<open>
  A project with two entry points that share a footer, and a third entry point whose
  analysis throws.
\<close>

definition example_tree :: "path \<Rightarrow> jsval option" where
  "example_tree e =
     (if e = ''/p/ep/home.tsx'' then
        Some (Obj [(''/p/ep/home.tsx'', Obj [(''/p/src/footer.tsx'', Obj [])])])
      else if e = ''/p/ep/about.tsx'' then
        Some (Obj [(''/p/ep/about.tsx'', Obj [(''/p/src/footer.tsx'', Obj []), (''/p/src/util.ts'', Obj [])])])
      else None)"

definition example_entries :: "path list" where
  "example_entries = [''/p/ep/home.tsx'', ''/p/ep/about.tsx'', ''/p/ep/bad.tsx'']"

definition example_graphs :: watcher_graphs where
  "example_graphs = buildDependencyGraph id example_tree example_entries"

lemma example_graphs_value:
  "example_graphs =
     \<lparr> dependencyGraph =
         [(''/p/ep/home.tsx'', [''/p/ep/home.tsx'', ''/p/src/footer.tsx'']),
          (''/p/ep/about.tsx'', [''/p/ep/about.tsx'', ''/p/src/footer.tsx'', ''/p/src/util.ts''])],
       reverseDependencyGraph =
         [(''/p/ep/home.tsx'', [''/p/ep/home.tsx'']),
          (''/p/src/footer.tsx'', [''/p/ep/home.tsx'', ''/p/ep/about.tsx'']),
          (''/p/ep/about.tsx'', [''/p/ep/about.tsx'']),
          (''/p/src/util.ts'', [''/p/ep/about.tsx''])] \<rparr>"
  by (simp add: example_graphs_def example_entries_def example_tree_def buildDependencyGraph_def
      process_entry_def addDependencies_def add_edge_def set_add_def map_has_def map_get_def
      map_set_def Let_def)

theorem reverse_is_transpose_of_forward_witness:
  "''/p/src/footer.tsx'' \<in> members (dependencyGraph example_graphs) ''/p/ep/about.tsx'' \<and>
   ''/p/ep/about.tsx'' \<in> members (reverseDependencyGraph example_graphs) ''/p/src/footer.tsx''"
proof -
  have fwd: "''/p/src/footer.tsx'' \<in> members (dependencyGraph example_graphs) ''/p/ep/about.tsx''"
    by (simp add: example_graphs_value members_def map_get_def)
  from fwd reverse_is_transpose_of_forward [of "''/p/src/footer.tsx''" id example_tree
      example_entries "''/p/ep/about.tsx''"]
  show ?thesis by (simp add: example_graphs_def)
qed

section \<open>Change watcher: affected entry points\<close>

text \<open>\<^verbatim>\<open>String.prototype.startsWith\<close>.\<close>

definition startsWith :: "string \<Rightarrow> string \<Rightarrow> bool" where
  "startsWith s p = (take (length p) s = p)"

text \<open>
  \<^verbatim>\<open>this.reverseDependencyGraph.get(file)\<close> followed by \<^verbatim>\<open>if (dependents)\<close>: a
  missing key has no dependents to iterate over.
\<close>

definition dependents :: "graph \<Rightarrow> path \<Rightarrow> path list" where
  "dependents g f = (case map_get g f of None \<Rightarrow> [] | Some s \<Rightarrow> s)"

text \<open>
  The closure \<^verbatim>\<open>findAffected\<close> of \<^verbatim>\<open>getAffectedEntryPoints\<close> and its
  \<^verbatim>\<open>dependents.forEach\<close> loop. The state is the pair of the two local sets
  \<open>(affected, visited)\<close>. \<open>visit_dependents\<close> is the loop: for each dependent it adds the
  dependent to \<^verbatim>\<open>affected\<close> when it lies under the entry-point directory \<open>dir\<close>, then
  runs \<^verbatim>\<open>findAffected(dependent)\<close>, which returns at once for a visited file and
  otherwise marks the file and loops over its own dependents (the nested call).
\<close>

function visit_dependents :: "graph \<Rightarrow> string \<Rightarrow> path list \<Rightarrow> path_set \<times> path_set \<Rightarrow> path_set \<times> path_set" where
  "visit_dependents g dir [] st = st"
| "visit_dependents g dir (dependent # rest) st =
     (let affected = (if startsWith dependent (dir @ ''/'') then set_add dependent (fst st) else fst st)
      in if dependent \<in> set (snd st) then visit_dependents g dir rest (affected, snd st)
         else visit_dependents g dir rest
                (visit_dependents g dir (dependents g dependent) (affected, set_add dependent (snd st))))"
  by pat_completeness auto

lemma visit_dependents_visited_mono:
  "visit_dependents_dom (g, dir, ds, st) \<Longrightarrow> set (snd st) \<subseteq> set (snd (visit_dependents g dir ds st))"
proof (induction g dir ds st rule: visit_dependents.pinduct)
  case (1 g dir st)
  then show ?case by (simp add: visit_dependents.psimps)
next
  case (2 g dir dependent rest st)
  then show ?case
    by (fastforce simp: visit_dependents.psimps Let_def set_set_add split: if_splits)
qed

lemma dependents_outside: "f \<notin> fst ` set g \<Longrightarrow> dependents g f = []"
proof -
  assume "f \<notin> fst ` set g"
  then have "map_of g f = None" by (simp add: map_of_eq_None_iff)
  then show ?thesis by (simp add: dependents_def map_get_def)
qed

termination visit_dependents
proof (relation "inv_image (less_than <*lex*> less_than)
    (\<lambda>(g, dir, ds, st). (card (fst ` set g - set (snd st)), length ds))", goal_cases)
  case 1
  show ?case by (intro wf_inv_image wf_lex_prod wf_less_than)
next
  case (2 g dir dependent rest st x)
  then show ?case by simp
next
  case (3 g dir dependent rest st x)
  show ?case
  proof (cases "dependent \<in> fst ` set g")
    case True
    have "fst ` set g - insert dependent (set (snd st)) \<subset> fst ` set g - set (snd st)"
      using True 3 by auto
    then have "card (fst ` set g - insert dependent (set (snd st))) < card (fst ` set g - set (snd st))"
      by (intro psubset_card_mono) auto
    then show ?thesis by (simp add: set_set_add)
  next
    case False
    then have "fst ` set g - insert dependent (set (snd st)) = fst ` set g - set (snd st)"
      by auto
    with False show ?thesis by (simp add: set_set_add dependents_outside)
  qed
next
  case (4 g dir dependent rest st x)
  have "set (snd st) \<subseteq> set (snd (visit_dependents g dir (dependents g dependent) (x, set_add dependent (snd st))))"
    using visit_dependents_visited_mono [OF 4(3)] by (auto simp: set_set_add)
  then have "card (fst ` set g - set (snd (visit_dependents g dir (dependents g dependent) (x, set_add dependent (snd st)))))
      \<le> card (fst ` set g - set (snd st))"
    by (intro card_mono) auto
  then show ?case by auto
qed

text \<open>
  The reverse edges as a relation, the files of a set under the entry-point directory,
  and the dependents of a set of files.
\<close>

definition reverse_edges :: "graph \<Rightarrow> (path \<times> path) set" where
  "reverse_edges g = {(x, y). y \<in> set (dependents g x)}"

definition entries_in :: "string \<Rightarrow> path set \<Rightarrow> path set" where
  "entries_in dir S = {e \<in> S. startsWith e (dir @ ''/'')}"

definition dependents_of_set :: "graph \<Rightarrow> path set \<Rightarrow> path set" where
  "dependents_of_set g S = (\<Union>x\<in>S. set (dependents g x))"

lemma entries_in_Un: "entries_in dir (S \<union> T) = entries_in dir S \<union> entries_in dir T"
  by (auto simp: entries_in_def)

lemma entries_in_insert:
  "entries_in dir (insert x S) = (if startsWith x (dir @ ''/'') then {x} else {}) \<union> entries_in dir S"
  by (auto simp: entries_in_def)

lemma dependents_of_set_Un: "dependents_of_set g (S \<union> T) = dependents_of_set g S \<union> dependents_of_set g T"
  by (auto simp: dependents_of_set_def)

lemma dependents_of_set_insert: "dependents_of_set g (insert x S) = set (dependents g x) \<union> dependents_of_set g S"
  by (auto simp: dependents_of_set_def)

text \<open>
  What one run of the loop does to the state: it only adds to \<^verbatim>\<open>visited\<close>, it visits
  every dependent of the list, every newly visited file has its dependents visited too,
  newly visited files are reachable from the list, and \<^verbatim>\<open>affected\<close> gains exactly the
  entry points among the list and the dependents of the newly visited files.
\<close>

definition visit_spec :: "graph \<Rightarrow> string \<Rightarrow> path list \<Rightarrow> path_set \<times> path_set \<Rightarrow> path_set \<times> path_set \<Rightarrow> bool" where
  "visit_spec g dir ds st st' =
     (set (snd st) \<subseteq> set (snd st') \<and>
      set ds \<subseteq> set (snd st') \<and>
      dependents_of_set g (set (snd st') - set (snd st)) \<subseteq> set (snd st') \<and>
      set (snd st') - set (snd st) \<subseteq> (reverse_edges g)\<^sup>* `` set ds \<and>
      set (fst st') = set (fst st) \<union>
        entries_in dir (set ds \<union> dependents_of_set g (set (snd st') - set (snd st))))"

lemma visit_spec_Nil: "visit_spec g dir [] st st"
  by (simp add: visit_spec_def dependents_of_set_def entries_in_def)

lemma visit_spec_seen:
  assumes "d \<in> set (snd st)"
    and "visit_spec g dir rest (a, snd st) st'"
    and "set a = set (fst st) \<union> entries_in dir {d}"
  shows "visit_spec g dir (d # rest) st st'"
  using assms unfolding visit_spec_def
  by (auto simp: entries_in_def)

lemma visit_spec_fresh:
  assumes fresh: "d \<notin> set (snd st)"
    and inner: "visit_spec g dir (dependents g d) (a, set_add d (snd st)) st1"
    and outer: "visit_spec g dir rest st1 st2"
    and a: "set a = set (fst st) \<union> entries_in dir {d}"
  shows "visit_spec g dir (d # rest) st st2"
proof -
  let ?V = "set (snd st)" and ?V1 = "set (snd st1)" and ?V2 = "set (snd st2)"
  let ?R = "reverse_edges g"
  from inner have i1: "insert d ?V \<subseteq> ?V1"
    and i2: "set (dependents g d) \<subseteq> ?V1"
    and i3: "dependents_of_set g (?V1 - insert d ?V) \<subseteq> ?V1"
    and i4: "?V1 - insert d ?V \<subseteq> ?R\<^sup>* `` set (dependents g d)"
    and i5: "set (fst st1) = set a \<union> entries_in dir (set (dependents g d) \<union> dependents_of_set g (?V1 - insert d ?V))"
    by (simp_all add: visit_spec_def set_set_add)
  from outer have o1: "?V1 \<subseteq> ?V2"
    and o2: "set rest \<subseteq> ?V2"
    and o3: "dependents_of_set g (?V2 - ?V1) \<subseteq> ?V2"
    and o4: "?V2 - ?V1 \<subseteq> ?R\<^sup>* `` set rest"
    and o5: "set (fst st2) = set (fst st1) \<union> entries_in dir (set rest \<union> dependents_of_set g (?V2 - ?V1))"
    by (simp_all add: visit_spec_def)
  have split: "?V2 - ?V = insert d ((?V1 - insert d ?V) \<union> (?V2 - ?V1))"
    using i1 o1 fresh by auto
  have c1: "?V \<subseteq> ?V2" using i1 o1 by auto
  have c2: "set (d # rest) \<subseteq> ?V2" using i1 o1 o2 by auto
  have c3: "dependents_of_set g (?V2 - ?V) \<subseteq> ?V2"
    unfolding split dependents_of_set_insert dependents_of_set_Un
    using i2 i3 o3 o1 by auto
  have step: "?R\<^sup>* `` set (dependents g d) \<subseteq> ?R\<^sup>* `` {d}"
  proof
    fix y assume "y \<in> ?R\<^sup>* `` set (dependents g d)"
    then obtain x where x: "x \<in> set (dependents g d)" and xy: "(x, y) \<in> ?R\<^sup>*" by auto
    from x have "(d, x) \<in> ?R" by (simp add: reverse_edges_def)
    from this xy have "(d, y) \<in> ?R\<^sup>*" by (rule converse_rtrancl_into_rtrancl)
    then show "y \<in> ?R\<^sup>* `` {d}" by auto
  qed
  have c4: "?V2 - ?V \<subseteq> ?R\<^sup>* `` set (d # rest)"
    unfolding split using i4 o4 step by auto
  have c5: "set (fst st2) = set (fst st) \<union>
      entries_in dir (set (d # rest) \<union> dependents_of_set g (?V2 - ?V))"
    unfolding split o5 i5 a dependents_of_set_insert dependents_of_set_Un
    by (auto simp: entries_in_def)
  from c1 c2 c3 c4 c5 show ?thesis unfolding visit_spec_def by blast
qed

lemma visit_dependents_spec: "visit_spec g dir ds st (visit_dependents g dir ds st)"
proof (induction g dir ds st rule: visit_dependents.induct)
  case (1 g dir st)
  show ?case by (simp add: visit_spec_Nil)
next
  case (2 g dir dependent rest st)
  define a where "a = (if startsWith dependent (dir @ ''/'') then set_add dependent (fst st) else fst st)"
  have a: "set a = set (fst st) \<union> entries_in dir {dependent}"
    by (auto simp: a_def set_set_add entries_in_def)
  show ?case
  proof (cases "dependent \<in> set (snd st)")
    case True
    from 2(1) [OF a_def True] have "visit_spec g dir rest (a, snd st) (visit_dependents g dir rest (a, snd st))" .
    with True have "visit_spec g dir (dependent # rest) st (visit_dependents g dir rest (a, snd st))"
      using a by (intro visit_spec_seen)
    with True show ?thesis by (simp add: a_def Let_def)
  next
    case False
    let ?st1 = "visit_dependents g dir (dependents g dependent) (a, set_add dependent (snd st))"
    have inner: "visit_spec g dir (dependents g dependent) (a, set_add dependent (snd st)) ?st1"
      using 2(2) [OF a_def False] .
    have outer: "visit_spec g dir rest ?st1 (visit_dependents g dir rest ?st1)"
      using 2(3) [OF a_def False] .
    from False inner outer a
    have "visit_spec g dir (dependent # rest) st (visit_dependents g dir rest ?st1)"
      by (rule visit_spec_fresh)
    with False show ?thesis by (simp add: a_def Let_def)
  qed
qed

text \<open>The first call \<^verbatim>\<open>findAffected(changedFile)\<close> and the function around it.\<close>

definition findAffected :: "graph \<Rightarrow> string \<Rightarrow> path \<Rightarrow> path_set \<times> path_set \<Rightarrow> path_set \<times> path_set" where
  "findAffected g dir file st =
     (if file \<in> set (snd st) then st
      else visit_dependents g dir (dependents g file) (fst st, set_add file (snd st)))"

definition getAffectedEntryPoints :: "graph \<Rightarrow> string \<Rightarrow> path \<Rightarrow> path list" where
  "getAffectedEntryPoints g dir changedFile = fst (findAffected g dir changedFile ([], []))"

lemma getAffectedEntryPoints_set:
  "set (getAffectedEntryPoints g dir f) = entries_in dir ((reverse_edges g)\<^sup>+ `` {f})"
proof -
  let ?R = "reverse_edges g"
  define st' where "st' = visit_dependents g dir (dependents g f) ([], set_add f [])"
  let ?V' = "set (snd st')"
  have spec: "visit_spec g dir (dependents g f) ([], set_add f []) st'"
    unfolding st'_def by (rule visit_dependents_spec)
  then have s1: "f \<in> ?V'" and s2: "set (dependents g f) \<subseteq> ?V'"
    and s3: "dependents_of_set g (?V' - {f}) \<subseteq> ?V'"
    and s4: "?V' - {f} \<subseteq> ?R\<^sup>* `` set (dependents g f)"
    and s5: "set (fst st') = entries_in dir (set (dependents g f) \<union> dependents_of_set g (?V' - {f}))"
    by (simp_all add: visit_spec_def set_set_add)
  have closed: "y \<in> ?V'" if "(f, y) \<in> ?R\<^sup>*" for y
    using that
  proof (induction rule: rtrancl_induct)
    case base
    show ?case by (rule s1)
  next
    case (step y z)
    then have z: "z \<in> set (dependents g y)" by (simp add: reverse_edges_def)
    show ?case
    proof (cases "y = f")
      case True
      with z s2 show ?thesis by auto
    next
      case False
      with step.IH have "y \<in> ?V' - {f}" by simp
      with z have "z \<in> dependents_of_set g (?V' - {f})" by (auto simp: dependents_of_set_def)
      with s3 show ?thesis by auto
    qed
  qed
  have first: "set (dependents g f) \<subseteq> ?R\<^sup>+ `` {f}"
    by (auto simp: reverse_edges_def)
  have "set (dependents g f) \<union> dependents_of_set g (?V' - {f}) = ?R\<^sup>+ `` {f}"
  proof (intro equalityI subsetI)
    fix e assume "e \<in> set (dependents g f) \<union> dependents_of_set g (?V' - {f})"
    then show "e \<in> ?R\<^sup>+ `` {f}"
    proof
      assume "e \<in> set (dependents g f)"
      with first show ?thesis by auto
    next
      assume "e \<in> dependents_of_set g (?V' - {f})"
      then obtain x where x: "x \<in> ?V' - {f}" and e: "e \<in> set (dependents g x)"
        by (auto simp: dependents_of_set_def)
      from x s4 obtain d where d: "d \<in> set (dependents g f)" and dx: "(d, x) \<in> ?R\<^sup>*" by auto
      from d have "(f, d) \<in> ?R" by (simp add: reverse_edges_def)
      from this dx have "(f, x) \<in> ?R\<^sup>+" by (rule rtrancl_into_trancl2)
      moreover from e have "(x, e) \<in> ?R" by (simp add: reverse_edges_def)
      ultimately have "(f, e) \<in> ?R\<^sup>+" by (rule trancl_into_trancl)
      then show ?thesis by auto
    qed
  next
    fix e assume "e \<in> ?R\<^sup>+ `` {f}"
    then have "(f, e) \<in> ?R\<^sup>+" by auto
    then obtain y where fy: "(f, y) \<in> ?R\<^sup>*" and ye: "(y, e) \<in> ?R"
      by (auto dest: tranclD2)
    from fy have y: "y \<in> ?V'" by (rule closed)
    from ye have e: "e \<in> set (dependents g y)" by (simp add: reverse_edges_def)
    show "e \<in> set (dependents g f) \<union> dependents_of_set g (?V' - {f})"
    proof (cases "y = f")
      case True
      with e show ?thesis by auto
    next
      case False
      with y e show ?thesis by (auto simp: dependents_of_set_def)
    qed
  qed
  with s5 have "set (fst st') = entries_in dir (?R\<^sup>+ `` {f})" by simp
  then show ?thesis
    by (simp add: getAffectedEntryPoints_def findAffected_def st'_def)
qed

section \<open>Configuration and the calls into the platform\<close>

text \<open>
  The fields of \<^verbatim>\<open>RenderConfig\<close> that the modelled functions read. An optional field
  is an \<open>option\<close>; \<^verbatim>\<open>maxConcurrentRenders\<close> is a number or the string \<^verbatim>\<open>'auto'\<close>;
  \<^verbatim>\<open>prettierConfig\<close> is \<^verbatim>\<open>false\<close> or an options object.
\<close>

datatype concurrency = Auto | Limit nat

datatype prettier_config = PrettierOff | PrettierOptions string

record RenderConfig =
  entryPointDir :: string
  outputDir :: string
  templateDir :: string
  templateExtension :: "string option"
  templateEngine :: string
  defaultTemplate :: "string option"
  mountInfoExport :: "string option"
  prettierConfig :: "prettier_config option"
  fileExtensions :: "string list option"
  maxConcurrentRenders :: "concurrency option"

text \<open>
  The functions of \<^verbatim>\<open>path\<close> and \<^verbatim>\<open>glob\<close> that the watcher calls. They belong to the
  platform, so the model takes them as parameters. \<open>glob\<close> is \<open>None\<close> where the promise is
  rejected.
\<close>

record node_env =
  path_resolve :: "string \<Rightarrow> path"
  path_parse_ext :: "string \<Rightarrow> string"
  path_parse_name :: "string \<Rightarrow> string"
  glob :: "string \<Rightarrow> string \<Rightarrow> string list option"

text \<open>\<^verbatim>\<open>this.config.fileExtensions || ['js', 'jsx', 'ts', 'tsx']\<close>.\<close>

definition supportedExtensions :: "RenderConfig \<Rightarrow> string list" where
  "supportedExtensions cfg =
     (case fileExtensions cfg of None \<Rightarrow> [''js'', ''jsx'', ''ts'', ''tsx''] | Some exts \<Rightarrow> exts)"

text \<open>\<^verbatim>\<open>Array.prototype.join\<close>.\<close>

fun join_with :: "string \<Rightarrow> string list \<Rightarrow> string" where
  "join_with sep [] = []"
| "join_with sep [x] = x"
| "join_with sep (x # y # ys) = x @ sep @ join_with sep (y # ys)"

section \<open>Change watcher: one notification\<close>

text \<open>
  What \<^verbatim>\<open>handleFileChange\<close> does for one notification: either nothing, or one call of
  \<^verbatim>\<open>onFileChange\<close> with a list of entry points; the flag tells whether
  \<^verbatim>\<open>rebuildDependencyGraph\<close> follows. \<^verbatim>\<open>absolutePath.substring(entryPointDir.length + 1)\<close>
  is \<open>relative_to\<close>. A rejected \<^verbatim>\<open>glob\<close> lands in the \<^verbatim>\<open>catch\<close> block, which logs.
\<close>

datatype watch_action = NoRender | Render "path list" bool

definition relative_to :: "string \<Rightarrow> path \<Rightarrow> path" where
  "relative_to dir p = drop (length dir + 1) p"

definition handleFileChange :: "node_env \<Rightarrow> RenderConfig \<Rightarrow> graph \<Rightarrow> string \<Rightarrow> watch_action" where
  "handleFileChange env cfg rgraph filePath =
     (let absolutePath = path_resolve env filePath;
          entryDir = path_resolve env (entryPointDir cfg)
      in if startsWith absolutePath (entryDir @ ''/'') then
           (let fileExt = drop 1 (path_parse_ext env filePath)
            in if fileExt \<notin> set (supportedExtensions cfg) then NoRender
               else Render [relative_to entryDir absolutePath] True)
         else if templateDir cfg \<noteq> [] \<and>
                 startsWith absolutePath (path_resolve env (templateDir cfg) @ ''/'') then
           (let fileName = path_parse_name env filePath;
                pattern = ''**/'' @ fileName @ ''.{'' @ join_with '','' (supportedExtensions cfg) @ ''}''
            in case glob env pattern (entryPointDir cfg) of
                 None \<Rightarrow> NoRender
               | Some matchingEntryPoints \<Rightarrow>
                   if matchingEntryPoints \<noteq> [] then Render matchingEntryPoints False else NoRender)
         else
           (let fileExt = drop 1 (path_parse_ext env filePath)
            in if fileExt \<notin> set (supportedExtensions cfg) then NoRender
               else
                 (let affectedEntryPoints = getAffectedEntryPoints rgraph entryDir absolutePath
                  in if affectedEntryPoints \<noteq> [] then
                       (let relativePaths =
                              filter (\<lambda>p. \<not> startsWith p ''/'')
                                (map (\<lambda>p. if startsWith p (entryDir @ ''/'') then relative_to entryDir p else p)
                                   affectedEntryPoints)
                        in if relativePaths \<noteq> [] then Render relativePaths True else NoRender)
                     else NoRender)))"

text \<open>
  The entry points handed to \<^verbatim>\<open>onFileChange\<close>, the three tests of the classification,
  and the entry points reachable from a file over one or more reverse edges.
\<close>

fun scheduled :: "watch_action \<Rightarrow> path set" where
  "scheduled NoRender = {}"
| "scheduled (Render files rebuild) = set files"

definition is_entry_point_path :: "node_env \<Rightarrow> RenderConfig \<Rightarrow> string \<Rightarrow> bool" where
  "is_entry_point_path env cfg filePath =
     startsWith (path_resolve env filePath) (path_resolve env (entryPointDir cfg) @ ''/'')"

definition is_template_path :: "node_env \<Rightarrow> RenderConfig \<Rightarrow> string \<Rightarrow> bool" where
  "is_template_path env cfg filePath =
     (templateDir cfg \<noteq> [] \<and>
      startsWith (path_resolve env filePath) (path_resolve env (templateDir cfg) @ ''/''))"

definition has_supported_extension :: "node_env \<Rightarrow> RenderConfig \<Rightarrow> string \<Rightarrow> bool" where
  "has_supported_extension env cfg filePath =
     (drop 1 (path_parse_ext env filePath) \<in> set (supportedExtensions cfg))"

definition reachable_entry_points :: "graph \<Rightarrow> string \<Rightarrow> path \<Rightarrow> path set" where
  "reachable_entry_points rgraph dir f = entries_in dir ((reverse_edges rgraph)\<^sup>+ `` {f})"

lemma handleFileChange_dependency:
  assumes "\<not> is_entry_point_path env cfg filePath"
    and "\<not> is_template_path env cfg filePath"
    and "has_supported_extension env cfg filePath"
  shows "scheduled (handleFileChange env cfg rgraph filePath) =
     relative_to (path_resolve env (entryPointDir cfg)) `
       {e \<in> reachable_entry_points rgraph (path_resolve env (entryPointDir cfg)) (path_resolve env filePath).
          \<not> startsWith (relative_to (path_resolve env (entryPointDir cfg)) e) ''/''}"
proof -
  let ?dir = "path_resolve env (entryPointDir cfg)"
  let ?abs = "path_resolve env filePath"
  let ?aff = "getAffectedEntryPoints rgraph ?dir ?abs"
  let ?rel = "filter (\<lambda>p. \<not> startsWith p ''/'')
      (map (\<lambda>p. if startsWith p (?dir @ ''/'') then relative_to ?dir p else p) ?aff)"
  have aff: "set ?aff = reachable_entry_points rgraph ?dir ?abs"
    by (simp add: getAffectedEntryPoints_set reachable_entry_points_def)
  have "p \<in> set ?aff \<Longrightarrow> startsWith p (?dir @ ''/'')" for p
    by (simp add: getAffectedEntryPoints_set entries_in_def)
  then have "map (\<lambda>p. if startsWith p (?dir @ ''/'') then relative_to ?dir p else p) ?aff
      = map (relative_to ?dir) ?aff"
    by (intro map_cong) auto
  then have rel: "set ?rel = relative_to ?dir ` {e \<in> set ?aff. \<not> startsWith (relative_to ?dir e) ''/''}"
    by auto
  have "handleFileChange env cfg rgraph filePath =
      (if ?aff \<noteq> [] then (if ?rel \<noteq> [] then Render ?rel True else NoRender) else NoRender)"
  proof -
    have ne: "\<not> startsWith ?abs (?dir @ ''/'')"
      using assms(1) by (simp add: is_entry_point_path_def)
    have nt: "\<not> (templateDir cfg \<noteq> [] \<and> startsWith ?abs (path_resolve env (templateDir cfg) @ ''/''))"
      using assms(2) unfolding is_template_path_def .
    have se: "\<not> drop 1 (path_parse_ext env filePath) \<notin> set (supportedExtensions cfg)"
      using assms(3) by (simp add: has_supported_extension_def)
    show ?thesis
      by (simp only: handleFileChange_def Let_def if_not_P [OF ne] if_not_P [OF nt] if_not_P [OF se])
  qed
  then have "scheduled (handleFileChange env cfg rgraph filePath) = set ?rel"
    by (cases "?aff = []"; cases "?rel = []") simp_all
  with rel aff show ?thesis by simp
qed

text \<open>
  A file that is not a template and whose extension is not among the configured ones
  schedules nothing, wherever it is and whatever depends on it.
\<close>

lemma handleFileChange_unsupported_extension:
  assumes "\<not> is_template_path env cfg filePath" and "\<not> has_supported_extension env cfg filePath"
  shows "handleFileChange env cfg rgraph filePath = NoRender"
proof -
  have nt: "\<not> (templateDir cfg \<noteq> [] \<and>
      startsWith (path_resolve env filePath) (path_resolve env (templateDir cfg) @ ''/''))"
    using assms(1) unfolding is_template_path_def .
  have se: "drop 1 (path_parse_ext env filePath) \<notin> set (supportedExtensions cfg)"
    using assms(2) by (simp add: has_supported_extension_def)
  show ?thesis
  proof (cases "startsWith (path_resolve env filePath) (path_resolve env (entryPointDir cfg) @ ''/'')")
    case True
    show ?thesis
      by (simp only: handleFileChange_def Let_def if_P [OF True] if_P [OF se])
  next
    case False
    show ?thesis
      by (simp only: handleFileChange_def Let_def if_not_P [OF False] if_not_P [OF nt] if_P [OF se])
  qed
qed

subsection \<open>The reverse graph that \<^verbatim>\<open>buildDependencyGraph\<close> builds\<close>

text \<open>
  Dependency sets are closed when an entry point that depends on another entry point
  also depends on everything the other one depends on.
\<close>

lemma set_dependents: "set (dependents g f) = members g f"
  by (simp add: dependents_def members_def split: option.splits)

definition dependency_sets_closed :: "(string \<Rightarrow> path) \<Rightarrow> (path \<Rightarrow> jsval option) \<Rightarrow> path list \<Rightarrow> bool" where
  "dependency_sets_closed r dt es =
     (\<forall>e\<in>set es. \<forall>e'\<in>set es. e \<in> deps_of r dt e' \<longrightarrow> deps_of r dt e \<subseteq> deps_of r dt e')"

lemma built_reverse_edges:
  "reverse_edges (reverseDependencyGraph (buildDependencyGraph r dt es)) =
     {(x, e). e \<in> set es \<and> x \<in> deps_of r dt e}"
  by (auto simp: reverse_edges_def set_dependents build_reverse)

lemma built_direct_reachable:
  assumes "e \<in> set es" and "f \<in> deps_of r dt e"
  shows "(f, e) \<in> (reverse_edges (reverseDependencyGraph (buildDependencyGraph r dt es)))\<^sup>+"
  using assms by (auto simp: built_reverse_edges)

lemma built_reachable_closed:
  assumes closed: "dependency_sets_closed r dt es"
    and reach: "(f, e) \<in> (reverse_edges (reverseDependencyGraph (buildDependencyGraph r dt es)))\<^sup>+"
  shows "e \<in> set es \<and> f \<in> deps_of r dt e"
  using reach
proof (induction rule: trancl_induct)
  case (base y)
  then show ?case by (simp add: built_reverse_edges)
next
  case (step y z)
  from step.hyps(2) have z: "z \<in> set es" and yz: "y \<in> deps_of r dt z"
    by (simp_all add: built_reverse_edges)
  from step.IH have y: "y \<in> set es" and fy: "f \<in> deps_of r dt y" by simp_all
  from closed y z yz have "deps_of r dt y \<subseteq> deps_of r dt z"
    unfolding dependency_sets_closed_def by blast
  with fy z show ?case by auto
qed

lemma built_reachable_entry_points:
  assumes "dependency_sets_closed r dt es"
  shows "reachable_entry_points (reverseDependencyGraph (buildDependencyGraph r dt es)) dir f =
     {e \<in> set es. f \<in> deps_of r dt e \<and> startsWith e (dir @ ''/'')}"
  using built_reachable_closed [OF assms] built_direct_reachable
  unfolding reachable_entry_points_def entries_in_def by blast

subsection \<open>An example project\<close>

text \<open>
  The working directory is \<^verbatim>\<open>/p\<close>; \<open>example_ext\<close> and \<open>example_name\<close> give the extension
  and the name of the last path segment.
\<close>

definition basename :: "string \<Rightarrow> string" where
  "basename p = rev (takeWhile (\<lambda>c. c \<noteq> CHR ''/'') (rev p))"

definition example_ext :: "string \<Rightarrow> string" where
  "example_ext p =
     (let b = basename p; e = takeWhile (\<lambda>c. c \<noteq> CHR ''.'') (rev b)
      in if length e = length b \<or> Suc (length e) = length b then [] else CHR ''.'' # rev e)"

definition example_name :: "string \<Rightarrow> string" where
  "example_name p = (let b = basename p in take (length b - length (example_ext p)) b)"

definition example_env :: node_env where
  "example_env =
     \<lparr> path_resolve = (\<lambda>p. if startsWith p ''/'' then p else ''/p/'' @ p),
       path_parse_ext = example_ext,
       path_parse_name = example_name,
       glob = (\<lambda>pattern cwd. Some []) \<rparr>"

definition example_config :: RenderConfig where
  "example_config =
     \<lparr> entryPointDir = ''ep'', outputDir = ''dist'', templateDir = ''templates'',
       templateExtension = Some ''.html'', templateEngine = ''html'',
       defaultTemplate = None, mountInfoExport = Some ''default'',
       prettierConfig = None, fileExtensions = None, maxConcurrentRenders = Some Auto \<rparr>"


definition tsx_jsx_config :: RenderConfig where
  "tsx_jsx_config = example_config\<lparr>fileExtensions := Some [''tsx'', ''jsx'']\<rparr>"

lemma reachable_entry_points_code:
  "reachable_entry_points rgraph dir f = set (getAffectedEntryPoints rgraph dir f)"
  by (simp add: getAffectedEntryPoints_set reachable_entry_points_def)

text \<open>
  Claim C6 as stated fails. With \<^verbatim>\<open>fileExtensions: ['tsx', 'jsx']\<close> the file \<^verbatim>\<open>src/util.ts\<close> is
  neither an entry point nor a template, it is in the dependency set of the entry point
  \<^verbatim>\<open>about.tsx\<close>, which is reachable from it over a reverse edge, and yet its change
  schedules nothing: the extension test returns first.
\<close>

theorem unsupported_extension_dependency_counterexample:
  "\<not> is_entry_point_path example_env tsx_jsx_config ''src/util.ts'' \<and>
   \<not> is_template_path example_env tsx_jsx_config ''src/util.ts'' \<and>
   ''/p/src/util.ts'' \<in> members (dependencyGraph example_graphs) ''/p/ep/about.tsx'' \<and>
   ''/p/ep/about.tsx'' \<in> reachable_entry_points (reverseDependencyGraph example_graphs)
       (path_resolve example_env (entryPointDir tsx_jsx_config))
       (path_resolve example_env ''src/util.ts'') \<and>
   handleFileChange example_env tsx_jsx_config (reverseDependencyGraph example_graphs) ''src/util.ts'' = NoRender \<and>
   scheduled (handleFileChange example_env tsx_jsx_config (reverseDependencyGraph example_graphs) ''src/util.ts'') = {}"
proof -
  have a: "\<not> is_entry_point_path example_env tsx_jsx_config ''src/util.ts''"
    by (simp add: is_entry_point_path_def example_env_def tsx_jsx_config_def example_config_def startsWith_def)
  have b: "\<not> is_template_path example_env tsx_jsx_config ''src/util.ts''"
    by (simp add: is_template_path_def example_env_def tsx_jsx_config_def example_config_def startsWith_def)
  have c: "''/p/src/util.ts'' \<in> members (dependencyGraph example_graphs) ''/p/ep/about.tsx''"
    by (simp add: example_graphs_value members_def map_get_def)
  have d: "''/p/ep/about.tsx'' \<in> reachable_entry_points (reverseDependencyGraph example_graphs)
       (path_resolve example_env (entryPointDir tsx_jsx_config))
       (path_resolve example_env ''src/util.ts'')"
    unfolding reachable_entry_points_code by code_simp
  have e: "handleFileChange example_env tsx_jsx_config (reverseDependencyGraph example_graphs) ''src/util.ts'' = NoRender"
    by code_simp
  from a b c d e show ?thesis by simp
qed

text \<open>
  Claim C6, amended. For a change to a file that is neither under the entry-point
  directory nor under the template directory and whose extension is one of the configured
  file extensions, the entry points handed to \<^verbatim>\<open>onFileChange\<close> are exactly the entry points
  reachable from the changed file over reverse dependency edges, written relative to the
  entry-point directory (a relative path that starts with a slash is dropped). For the
  graph that \<^verbatim>\<open>buildDependencyGraph\<close> builds from closed dependency sets, these are exactly
  the entry points whose dependency set contains the changed file.
\<close>

theorem dependency_change_schedules_reachable_entry_points:
  assumes "\<not> is_entry_point_path env cfg filePath"
    and "\<not> is_template_path env cfg filePath"
    and "has_supported_extension env cfg filePath"
  shows "scheduled (handleFileChange env cfg rgraph filePath) =
           relative_to (path_resolve env (entryPointDir cfg)) `
             {e \<in> reachable_entry_points rgraph (path_resolve env (entryPointDir cfg)) (path_resolve env filePath).
                \<not> startsWith (relative_to (path_resolve env (entryPointDir cfg)) e) ''/''} \<and>
         (dependency_sets_closed r dt es \<longrightarrow>
            reachable_entry_points (reverseDependencyGraph (buildDependencyGraph r dt es))
                (path_resolve env (entryPointDir cfg)) (path_resolve env filePath) =
              {e \<in> set es. path_resolve env filePath \<in> deps_of r dt e \<and>
                 startsWith e (path_resolve env (entryPointDir cfg) @ ''/'')})"
proof (intro conjI impI)
  show "scheduled (handleFileChange env cfg rgraph filePath) =
           relative_to (path_resolve env (entryPointDir cfg)) `
             {e \<in> reachable_entry_points rgraph (path_resolve env (entryPointDir cfg)) (path_resolve env filePath).
                \<not> startsWith (relative_to (path_resolve env (entryPointDir cfg)) e) ''/''}"
    by (rule handleFileChange_dependency [OF assms])
next
  assume "dependency_sets_closed r dt es"
  then show "reachable_entry_points (reverseDependencyGraph (buildDependencyGraph r dt es))
                (path_resolve env (entryPointDir cfg)) (path_resolve env filePath) =
              {e \<in> set es. path_resolve env filePath \<in> deps_of r dt e \<and>
                 startsWith e (path_resolve env (entryPointDir cfg) @ ''/'')}"
    by (rule built_reachable_entry_points)
qed


lemma example_dependency_sets_closed: "dependency_sets_closed id example_tree example_entries"
  by code_simp

lemma example_direct_dependents:
  "{e \<in> set example_entries. ''/p/src/footer.tsx'' \<in> deps_of id example_tree e \<and>
         startsWith e (''/p/ep'' @ ''/'')} = {''/p/ep/home.tsx'', ''/p/ep/about.tsx''}"
proof -
  have "{e \<in> set example_entries. ''/p/src/footer.tsx'' \<in> deps_of id example_tree e \<and>
         startsWith e (''/p/ep'' @ ''/'')} =
      set (filter (\<lambda>e. ''/p/src/footer.tsx'' \<in> deps_of id example_tree e \<and>
         startsWith e (''/p/ep'' @ ''/'')) example_entries)"
    by simp
  also have "\<dots> = {''/p/ep/home.tsx'', ''/p/ep/about.tsx''}"
    by code_simp
  finally show ?thesis .
qed

theorem dependency_change_schedules_reachable_entry_points_witness:
  "\<not> is_entry_point_path example_env example_config ''src/footer.tsx'' \<and>
   \<not> is_template_path example_env example_config ''src/footer.tsx'' \<and>
   has_supported_extension example_env example_config ''src/footer.tsx'' \<and>
   dependency_sets_closed id example_tree example_entries \<and>
   reachable_entry_points (reverseDependencyGraph example_graphs) ''/p/ep'' ''/p/src/footer.tsx'' =
     {''/p/ep/home.tsx'', ''/p/ep/about.tsx''} \<and>
   scheduled (handleFileChange example_env example_config (reverseDependencyGraph example_graphs)
       ''src/footer.tsx'') = {''home.tsx'', ''about.tsx''}"
proof -
  have a: "\<not> is_entry_point_path example_env example_config ''src/footer.tsx''"
    by code_simp
  have b: "\<not> is_template_path example_env example_config ''src/footer.tsx''"
    by code_simp
  have c: "has_supported_extension example_env example_config ''src/footer.tsx''"
    by code_simp
  have dir: "path_resolve example_env (entryPointDir example_config) = ''/p/ep''"
    and fileabs: "path_resolve example_env ''src/footer.tsx'' = ''/p/src/footer.tsx''"
    by (simp_all add: example_env_def example_config_def startsWith_def)
  note main = dependency_change_schedules_reachable_entry_points
      [OF a b c, of "reverseDependencyGraph example_graphs" id example_tree example_entries,
       unfolded dir fileabs, folded example_graphs_def]
  from main example_dependency_sets_closed
  have "reachable_entry_points (reverseDependencyGraph example_graphs) ''/p/ep'' ''/p/src/footer.tsx'' =
      {e \<in> set example_entries. ''/p/src/footer.tsx'' \<in> deps_of id example_tree e \<and>
         startsWith e (''/p/ep'' @ ''/'')}"
    by (elim conjE impE) assumption
  then have reach: "reachable_entry_points (reverseDependencyGraph example_graphs) ''/p/ep'' ''/p/src/footer.tsx'' =
      {''/p/ep/home.tsx'', ''/p/ep/about.tsx''}"
    by (simp only: example_direct_dependents)
  from main have "scheduled (handleFileChange example_env example_config
        (reverseDependencyGraph example_graphs) ''src/footer.tsx'') =
      relative_to ''/p/ep'' ` {e \<in> reachable_entry_points (reverseDependencyGraph example_graphs)
          ''/p/ep'' ''/p/src/footer.tsx''. \<not> startsWith (relative_to ''/p/ep'' e) ''/''}"
    by (elim conjE)
  also have "\<dots> = relative_to ''/p/ep'' ` {e \<in> set [''/p/ep/home.tsx'', ''/p/ep/about.tsx''].
      \<not> startsWith (relative_to ''/p/ep'' e) ''/''}"
    unfolding reach by simp
  also have "\<dots> = relative_to ''/p/ep'' ` set (filter (\<lambda>e. \<not> startsWith (relative_to ''/p/ep'' e) ''/'')
      [''/p/ep/home.tsx'', ''/p/ep/about.tsx''])"
    by (simp only: set_filter)
  also have "\<dots> = {''home.tsx'', ''about.tsx''}"
    by code_simp
  finally have sched: "scheduled (handleFileChange example_env example_config
        (reverseDependencyGraph example_graphs) ''src/footer.tsx'') = {''home.tsx'', ''about.tsx''}" .
  from a b c example_dependency_sets_closed reach sched show ?thesis
    by (intro conjI)
qed


section \<open>Change watcher: a stream of notifications\<close>

text \<open>
  \<^verbatim>\<open>start\<close> registers one callback per notification kind; each callback calls
  \<^verbatim>\<open>handleFileChange\<close> and does not wait for it. \<^verbatim>\<open>handleFileChange\<close> reaches its call of
  \<^verbatim>\<open>onFileChange\<close> without waiting for anything that an earlier notification started, so
  a batch is in flight from its notification until its renders have finished. The state
  is the pair of graphs and the batches in flight; an event is a notification of the
  file-system watcher or the end of the batch at a position of the list. The graph is
  rebuilt when a batch that asks for it ends.
\<close>

datatype WatcherEventType = Add | Change | Unlink

record render_batch =
  batch_files :: "path list"
  batch_rebuilds :: bool

record watcher_state =
  graphs :: watcher_graphs
  in_flight :: "render_batch list"

datatype watcher_event = Notify WatcherEventType string | BatchFinished nat

text \<open>
  \<^verbatim>\<open>buildInitialDependencyGraph\<close> (also \<^verbatim>\<open>rebuildDependencyGraph\<close>): the entry points come
  from \<^verbatim>\<open>glob\<close>; where that is rejected the graphs stay as they are.
\<close>

definition buildInitialDependencyGraph :: "node_env \<Rightarrow> RenderConfig \<Rightarrow> (path \<Rightarrow> jsval option) \<Rightarrow> watcher_graphs \<Rightarrow> watcher_graphs" where
  "buildInitialDependencyGraph env cfg dependencyTree w =
     (let pattern = ''**/*.{'' @ join_with '','' (supportedExtensions cfg) @ ''}''
      in case glob env pattern (entryPointDir cfg) of
           None \<Rightarrow> w
         | Some entryPoints \<Rightarrow> buildDependencyGraph (path_resolve env) dependencyTree entryPoints)"

definition on_notification :: "node_env \<Rightarrow> RenderConfig \<Rightarrow> WatcherEventType \<Rightarrow> string \<Rightarrow> watcher_state \<Rightarrow> watcher_state" where
  "on_notification env cfg action filePath st =
     (case handleFileChange env cfg (reverseDependencyGraph (graphs st)) filePath of
        NoRender \<Rightarrow> st
      | Render files rebuild \<Rightarrow>
          st\<lparr>in_flight := in_flight st @ [\<lparr>batch_files = files, batch_rebuilds = rebuild\<rparr>]\<rparr>)"

definition on_batch_finished :: "node_env \<Rightarrow> RenderConfig \<Rightarrow> (path \<Rightarrow> jsval option) \<Rightarrow> nat \<Rightarrow> watcher_state \<Rightarrow> watcher_state" where
  "on_batch_finished env cfg dependencyTree i st =
     (if i < length (in_flight st) then
        \<lparr> graphs = (if batch_rebuilds (in_flight st ! i)
                     then buildInitialDependencyGraph env cfg dependencyTree (graphs st)
                     else graphs st),
          in_flight = take i (in_flight st) @ drop (Suc i) (in_flight st) \<rparr>
      else st)"

fun watcher_step :: "node_env \<Rightarrow> RenderConfig \<Rightarrow> (path \<Rightarrow> jsval option) \<Rightarrow> watcher_state \<Rightarrow> watcher_event \<Rightarrow> watcher_state" where
  "watcher_step env cfg dependencyTree st (Notify action filePath) = on_notification env cfg action filePath st"
| "watcher_step env cfg dependencyTree st (BatchFinished i) = on_batch_finished env cfg dependencyTree i st"

definition watcher_run :: "node_env \<Rightarrow> RenderConfig \<Rightarrow> (path \<Rightarrow> jsval option) \<Rightarrow> watcher_state \<Rightarrow> watcher_event list \<Rightarrow> watcher_state" where
  "watcher_run env cfg dependencyTree st events = foldl (watcher_step env cfg dependencyTree) st events"

subsection \<open>Notifications are not coalesced\<close>

lemma handleFileChange_entry_point:
  assumes "is_entry_point_path env cfg filePath" and "has_supported_extension env cfg filePath"
  shows "handleFileChange env cfg rgraph filePath =
     Render [relative_to (path_resolve env (entryPointDir cfg)) (path_resolve env filePath)] True"
proof -
  have e: "startsWith (path_resolve env filePath) (path_resolve env (entryPointDir cfg) @ ''/'')"
    using assms(1) by (simp add: is_entry_point_path_def)
  have se: "\<not> drop 1 (path_parse_ext env filePath) \<notin> set (supportedExtensions cfg)"
    using assms(2) by (simp add: has_supported_extension_def)
  show ?thesis
    by (simp only: handleFileChange_def Let_def if_P [OF e] if_not_P [OF se])
qed

definition entry_batch :: "node_env \<Rightarrow> RenderConfig \<Rightarrow> string \<Rightarrow> render_batch" where
  "entry_batch env cfg filePath =
     \<lparr> batch_files = [relative_to (path_resolve env (entryPointDir cfg)) (path_resolve env filePath)],
       batch_rebuilds = True \<rparr>"

lemma on_notification_entry_point:
  assumes "is_entry_point_path env cfg filePath" and "has_supported_extension env cfg filePath"
  shows "on_notification env cfg action filePath st =
     st\<lparr>in_flight := in_flight st @ [entry_batch env cfg filePath]\<rparr>"
  by (simp add: on_notification_def handleFileChange_entry_point [OF assms] entry_batch_def)

text \<open>
  Claim C7, amended. The watcher does not debounce: every notification for a file under
  the entry-point directory with a configured extension starts its own render batch for
  that entry point at once, whatever is in flight, so \<open>n\<close> successive notifications for one
  path leave \<open>n\<close> more batches for the same entry point in flight.
\<close>

theorem every_notification_starts_a_batch:
  assumes "is_entry_point_path env cfg filePath" and "has_supported_extension env cfg filePath"
  shows "in_flight (watcher_run env cfg dependencyTree st (replicate n (Notify action filePath))) =
     in_flight st @ replicate n (entry_batch env cfg filePath)"
proof (induction n arbitrary: st)
  case 0
  show ?case by (simp add: watcher_run_def)
next
  case (Suc n)
  have "in_flight (watcher_run env cfg dependencyTree st (replicate (Suc n) (Notify action filePath))) =
      in_flight (watcher_run env cfg dependencyTree
        (st\<lparr>in_flight := in_flight st @ [entry_batch env cfg filePath]\<rparr>)
        (replicate n (Notify action filePath)))"
    by (simp add: watcher_run_def on_notification_entry_point [OF assms])
  also have "\<dots> = (in_flight st @ [entry_batch env cfg filePath]) @ replicate n (entry_batch env cfg filePath)"
    using Suc.IH by simp
  finally show ?case by (simp add: replicate_app_Cons_same)
qed

text \<open>
  Claim C7 as stated fails: two notifications for one change of \<^verbatim>\<open>ep/home.tsx\<close> leave
  two batches for \<^verbatim>\<open>home.tsx\<close> in flight at the same time.
\<close>

definition idle_watcher :: watcher_state where
  "idle_watcher = \<lparr> graphs = example_graphs, in_flight = [] \<rparr>"

theorem duplicate_notifications_counterexample:
  "in_flight (watcher_run example_env example_config example_tree idle_watcher
       [Notify Change ''ep/home.tsx'', Notify Change ''ep/home.tsx'']) =
     [\<lparr> batch_files = [''home.tsx''], batch_rebuilds = True \<rparr>,
      \<lparr> batch_files = [''home.tsx''], batch_rebuilds = True \<rparr>]"
  by code_simp

theorem every_notification_starts_a_batch_witness:
  "is_entry_point_path example_env example_config ''ep/home.tsx'' \<and>
   has_supported_extension example_env example_config ''ep/home.tsx'' \<and>
   in_flight (watcher_run example_env example_config example_tree idle_watcher
       (replicate 3 (Notify Change ''ep/home.tsx''))) =
     replicate 3 \<lparr> batch_files = [''home.tsx''], batch_rebuilds = True \<rparr>"
proof -
  have a: "is_entry_point_path example_env example_config ''ep/home.tsx''"
    by code_simp
  have b: "has_supported_extension example_env example_config ''ep/home.tsx''"
    by code_simp
  have c: "entry_batch example_env example_config ''ep/home.tsx'' =
      \<lparr> batch_files = [''home.tsx''], batch_rebuilds = True \<rparr>"
    by code_simp
  have d: "in_flight idle_watcher = []"
    by (simp add: idle_watcher_def)
  from every_notification_starts_a_batch [OF a b, of example_tree idle_watcher 3 Change]
  have "in_flight (watcher_run example_env example_config example_tree idle_watcher
       (replicate 3 (Notify Change ''ep/home.tsx''))) =
     replicate 3 \<lparr> batch_files = [''home.tsx''], batch_rebuilds = True \<rparr>"
    unfolding c d by simp
  with a b show ?thesis by (intro conjI)
qed


section \<open>Rendering one file\<close>

text \<open>
  \<^verbatim>\<open>RenderError\<close> (\<open>cause\<close> holds the message of the causing error) and \<^verbatim>\<open>RenderResult\<close>:
  \<^verbatim>\<open>{success: true, data, outputPath}\<close> with \<^verbatim>\<open>data\<close> equal to \<^verbatim>\<open>outputPath\<close>, or
  \<^verbatim>\<open>{success: false, error}\<close>. What awaiting a promise gives the caller: a value, a
  thrown error, or nothing, when the promise never settles.
\<close>

record RenderError =
  message :: string
  code :: string
  filePath :: "string option"
  cause :: "string option"

datatype 'a RenderResult = Success 'a | Failure RenderError

datatype 'a promise = Resolves 'a | Rejects string | Pending

text \<open>
  Strings are lists of characters, one per UTF-16 code unit below 256.
  \<^verbatim>\<open>String.prototype.trim\<close> removes white space and line terminators at both ends; among
  these code units they are tab, line feed, vertical tab, form feed, carriage return,
  space and no-break space. \<open>split_lines\<close> is \<^verbatim>\<open>split('\n')\<close>.
\<close>

definition js_whitespace :: "char \<Rightarrow> bool" where
  "js_whitespace c = (of_char c \<in> {9, 10, 11, 12, 13, 32, 160 :: nat})"

definition trim :: "string \<Rightarrow> string" where
  "trim s = rev (dropWhile js_whitespace (rev (dropWhile js_whitespace s)))"

fun split_lines :: "string \<Rightarrow> string list" where
  "split_lines [] = [[]]"
| "split_lines (c # cs) =
     (if c = CHR 0x0A then [] # split_lines cs
      else (case split_lines cs of [] \<Rightarrow> [[c]] | l # ls \<Rightarrow> (c # l) # ls))"

text \<open>
  The promise of \<^verbatim>\<open>execa('node', [workerPath, filePath, ...])\<close>: it resolves when the
  worker exits with code 0, it is rejected with an error object otherwise (\<^verbatim>\<open>stderr\<close> and
  \<^verbatim>\<open>exitCode\<close> may be undefined: a worker that could not be spawned or was killed by a
  signal has no exit code), and it stays pending while the worker runs. The filter of
  the \<^verbatim>\<open>catch\<close> block is \<open>keep_line\<close>.
\<close>

datatype execa_outcome = ExecaResolved | ExecaRejected "string option" "int option" | ExecaPending

definition keep_line :: "string \<Rightarrow> bool" where
  "keep_line line =
     (let trimmed = trim line
      in if trimmed = ''Failed to load module'' then False
         else if trimmed = ''Failed to render React component'' then False
         else if startsWith trimmed ''File:'' then False
         else if startsWith trimmed ''code:'' then False
         else if startsWith trimmed ''url:'' then False
         else if trimmed = ''}'' then False
         else True)"

definition process_error_message :: "string option \<Rightarrow> string" where
  "process_error_message stderr =
     (let errorMessage = (case stderr of
                            None \<Rightarrow> ''Render process failed''
                          | Some s \<Rightarrow> if trim s = [] then ''Render process failed'' else trim s)
      in if errorMessage \<noteq> [] then
           trim (join_with [CHR 0x0A] (filter keep_line (split_lines errorMessage)))
         else errorMessage)"

definition process_error_code :: "int option \<Rightarrow> string" where
  "process_error_code exitCode =
     (case exitCode of
        None \<Rightarrow> ''PROCESS_SPAWN_ERROR''
      | Some n \<Rightarrow> if n \<noteq> 0 then ''PROCESS_EXIT_ERROR'' else ''PROCESS_SPAWN_ERROR'')"

text \<open>
  \<^verbatim>\<open>renderFile\<close>: the whole body after the worker path is one \<^verbatim>\<open>try\<close> block, and its
  \<^verbatim>\<open>catch\<close> block returns a failure value. \<open>join\<close> is \<^verbatim>\<open>path.join\<close>.
\<close>

definition renderFile :: "(string \<Rightarrow> string \<Rightarrow> string) \<Rightarrow> RenderConfig \<Rightarrow> string \<Rightarrow> execa_outcome \<Rightarrow> string RenderResult promise" where
  "renderFile join config file outcome =
     (case outcome of
        ExecaResolved \<Rightarrow> Resolves (Success (join (outputDir config) file))
      | ExecaRejected stderr exitCode \<Rightarrow>
          Resolves (Failure \<lparr> message = process_error_message stderr,
                              code = process_error_code exitCode,
                              filePath = Some file, cause = None \<rparr>)
      | ExecaPending \<Rightarrow> Pending)"


subsection \<open>The older \<^verbatim>\<open>Renderer\<close> class\<close>

text \<open>Decimal notation of an exit code, for the template literal of the message.\<close>

definition digit_char :: "nat \<Rightarrow> char" where
  "digit_char d = char_of (48 + d)"

function string_of_nat :: "nat \<Rightarrow> string" where
  "string_of_nat n = (if n < 10 then [digit_char n] else string_of_nat (n div 10) @ [digit_char (n mod 10)])"
  by pat_completeness auto
termination
  by (relation "measure id") auto

definition string_of_int :: "int \<Rightarrow> string" where
  "string_of_int i = (if i < 0 then CHR ''-'' # string_of_nat (nat (- i)) else string_of_nat (nat i))"

text \<open>
  \<^verbatim>\<open>spawn\<close> either throws or returns a child process, which emits \<^verbatim>\<open>close\<close> and
  \<^verbatim>\<open>error\<close> events; the promise of \<^verbatim>\<open>handleProcessResult\<close> is resolved by the first of
  them and is pending while there is none. \<open>outDir\<close> is \<^verbatim>\<open>this.config.outputDir\<close>.
\<close>

datatype process_event = Close "int option" "string option" | ProcessError string

datatype spawn_outcome = SpawnThrows string | Spawned "process_event list"

definition exit_message :: "int option \<Rightarrow> string option \<Rightarrow> string" where
  "exit_message exitCode signal =
     ''Render process exited with code '' @
     (case exitCode of None \<Rightarrow> ''null'' | Some n \<Rightarrow> string_of_int n) @
     (case signal of
        None \<Rightarrow> []
      | Some sig \<Rightarrow> if sig \<noteq> [] then '' (signal: '' @ sig @ '')'' else [])"

definition handleProcessResult :: "(string \<Rightarrow> string \<Rightarrow> string) \<Rightarrow> string \<Rightarrow> process_event list \<Rightarrow> string \<Rightarrow> string RenderResult promise" where
  "handleProcessResult join outDir events file =
     (case events of
        [] \<Rightarrow> Pending
      | Close exitCode signal # later \<Rightarrow>
          if exitCode = Some 0 then Resolves (Success (join outDir file))
          else Resolves (Failure \<lparr> message = exit_message exitCode signal,
                                   code = ''PROCESS_EXIT_ERROR'',
                                   filePath = Some file, cause = None \<rparr>)
      | ProcessError processError # later \<Rightarrow>
          Resolves (Failure \<lparr> message = ''Failed to spawn render process'',
                              code = ''PROCESS_SPAWN_ERROR'',
                              filePath = Some file, cause = Some processError \<rparr>))"

definition Renderer_renderFile :: "(string \<Rightarrow> string \<Rightarrow> string) \<Rightarrow> string \<Rightarrow> string \<Rightarrow> spawn_outcome \<Rightarrow> string RenderResult promise" where
  "Renderer_renderFile join outDir file spawned =
     (case spawned of
        Spawned events \<Rightarrow> handleProcessResult join outDir events file
      | SpawnThrows error \<Rightarrow>
          Resolves (Failure \<lparr> message = ''Unexpected error during render'',
                              code = ''RENDER_UNEXPECTED_ERROR'',
                              filePath = Some file, cause = Some error \<rparr>))"

text \<open>
  Claim C3. \<^verbatim>\<open>renderFile\<close> never propagates an exception to its caller, and for every way
  the worker process ends or fails (exit code zero or not, no exit code, failure to
  spawn, an error event, a throwing \<^verbatim>\<open>spawn\<close>) it returns a \<^verbatim>\<open>RenderResult\<close> value. This holds
  for the function \<^verbatim>\<open>renderFile\<close> and for the method of the \<^verbatim>\<open>Renderer\<close> class. While the
  worker has not ended, the promise is pending.
\<close>

theorem renderFile_always_returns_a_result:
  "(outcome \<noteq> ExecaPending \<longrightarrow> (\<exists>r. renderFile join config file outcome = Resolves r)) \<and>
   (\<forall>e. renderFile join config file outcome \<noteq> Rejects e) \<and>
   (spawned \<noteq> Spawned [] \<longrightarrow> (\<exists>r. Renderer_renderFile join outDir file spawned = Resolves r)) \<and>
   (\<forall>e. Renderer_renderFile join outDir file spawned \<noteq> Rejects e)"
proof (intro conjI impI allI)
  assume "outcome \<noteq> ExecaPending"
  then show "\<exists>r. renderFile join config file outcome = Resolves r"
    by (cases outcome) (simp_all add: renderFile_def)
next
  fix e show "renderFile join config file outcome \<noteq> Rejects e"
    by (cases outcome) (simp_all add: renderFile_def)
next
  assume "spawned \<noteq> Spawned []"
  then show "\<exists>r. Renderer_renderFile join outDir file spawned = Resolves r"
    by (auto simp: Renderer_renderFile_def handleProcessResult_def
        split: spawn_outcome.splits list.splits process_event.splits)
next
  fix e show "Renderer_renderFile join outDir file spawned \<noteq> Rejects e"
    by (auto simp: Renderer_renderFile_def handleProcessResult_def
        split: spawn_outcome.splits list.splits process_event.splits)
qed


theorem renderFile_always_returns_a_result_witness:
  "ExecaRejected (Some ''boom'') (Some 1) \<noteq> ExecaPending \<and>
   renderFile (\<lambda>a b. a @ ''/'' @ b) example_config ''home.tsx'' (ExecaRejected (Some ''boom'') (Some 1)) =
     Resolves (Failure \<lparr> message = ''boom'', code = ''PROCESS_EXIT_ERROR'',
                          filePath = Some ''home.tsx'', cause = None \<rparr>) \<and>
   Spawned [ProcessError ''ENOENT'', Close None None] \<noteq> Spawned [] \<and>
   Renderer_renderFile (\<lambda>a b. a @ ''/'' @ b) ''dist'' ''home.tsx'' (Spawned [ProcessError ''ENOENT'', Close None None]) =
     Resolves (Failure \<lparr> message = ''Failed to spawn render process'', code = ''PROCESS_SPAWN_ERROR'',
                          filePath = Some ''home.tsx'', cause = Some ''ENOENT'' \<rparr>)"
proof -
  let ?join = "\<lambda>a b. a @ ''/'' @ b"
  have a: "ExecaRejected (Some ''boom'') (Some 1) \<noteq> ExecaPending" by simp
  have b: "Spawned [ProcessError ''ENOENT'', Close None None] \<noteq> Spawned []" by simp
  note main = renderFile_always_returns_a_result
      [of "ExecaRejected (Some ''boom'') (Some 1)" ?join example_config "''home.tsx''"
          "Spawned [ProcessError ''ENOENT'', Close None None]" "''dist''"]
  from main a obtain r where r: "renderFile ?join example_config ''home.tsx''
      (ExecaRejected (Some ''boom'') (Some 1)) = Resolves r"
    by blast
  have "renderFile ?join example_config ''home.tsx'' (ExecaRejected (Some ''boom'') (Some 1)) \<in>
      {Pending, Resolves (Failure \<lparr> message = ''boom'', code = ''PROCESS_EXIT_ERROR'',
                          filePath = Some ''home.tsx'', cause = None \<rparr>)}"
    by code_simp
  with r have r': "renderFile ?join example_config ''home.tsx'' (ExecaRejected (Some ''boom'') (Some 1)) =
      Resolves (Failure \<lparr> message = ''boom'', code = ''PROCESS_EXIT_ERROR'',
                          filePath = Some ''home.tsx'', cause = None \<rparr>)"
    by auto
  from main b obtain q where q: "Renderer_renderFile ?join ''dist'' ''home.tsx''
      (Spawned [ProcessError ''ENOENT'', Close None None]) = Resolves q"
    by blast
  have "Renderer_renderFile ?join ''dist'' ''home.tsx'' (Spawned [ProcessError ''ENOENT'', Close None None]) \<in>
      {Pending, Resolves (Failure \<lparr> message = ''Failed to spawn render process'', code = ''PROCESS_SPAWN_ERROR'',
                          filePath = Some ''home.tsx'', cause = Some ''ENOENT'' \<rparr>)}"
    by code_simp
  with q have q': "Renderer_renderFile ?join ''dist'' ''home.tsx'' (Spawned [ProcessError ''ENOENT'', Close None None]) =
      Resolves (Failure \<lparr> message = ''Failed to spawn render process'', code = ''PROCESS_SPAWN_ERROR'',
                          filePath = Some ''home.tsx'', cause = Some ''ENOENT'' \<rparr>)"
    by auto
  from a r' b q' show ?thesis by (intro conjI)
qed


section \<open>Rendering a batch\<close>

text \<open>
  \<^verbatim>\<open>Promise.all\<close>: rejected as soon as one promise is rejected, pending while one is
  pending, resolved with the values in the order of the promises otherwise. Where several
  promises are rejected the model reports the first of the list.
\<close>

fun promise_all :: "'a promise list \<Rightarrow> 'a list promise" where
  "promise_all [] = Resolves []"
| "promise_all (p # ps) =
     (case p of
        Rejects e \<Rightarrow> Rejects e
      | Pending \<Rightarrow> (case promise_all ps of Rejects e \<Rightarrow> Rejects e | _ \<Rightarrow> Pending)
      | Resolves v \<Rightarrow>
          (case promise_all ps of
             Resolves vs \<Rightarrow> Resolves (v # vs)
           | Rejects e \<Rightarrow> Rejects e
           | Pending \<Rightarrow> Pending))"

text \<open>
  \<^verbatim>\<open>renderWithConcurrency\<close>. \<open>cpus\<close> is \<^verbatim>\<open>cpus().length\<close> and \<open>workers i\<close> is how the
  worker process of the \<open>i\<close>-th file ends. \<^verbatim>\<open>pLimit\<close> refuses a concurrency that is not a
  positive integer by throwing; the promise that \<^verbatim>\<open>limit(fn)\<close> returns settles as the
  promise of \<^verbatim>\<open>fn\<close> does.
\<close>

definition maxConcurrent :: "RenderConfig \<Rightarrow> nat \<Rightarrow> nat" where
  "maxConcurrent config cpus =
     (case maxConcurrentRenders config of
        None \<Rightarrow> max 1 cpus
      | Some Auto \<Rightarrow> max 1 cpus
      | Some (Limit n) \<Rightarrow> n)"

definition renderWithConcurrency ::
  "(string \<Rightarrow> string \<Rightarrow> string) \<Rightarrow> RenderConfig \<Rightarrow> nat \<Rightarrow> string list \<Rightarrow> (nat \<Rightarrow> execa_outcome) \<Rightarrow> string RenderResult list promise" where
  "renderWithConcurrency join config cpus files workers =
     (if maxConcurrent config cpus = 0 then Rejects ''Expected `concurrency` to be a number from 1 and up''
      else promise_all (map (\<lambda>(i, file). renderFile join config file (workers i)) (enumerate 0 files)))"

text \<open>
  The older \<^verbatim>\<open>Renderer.renderFiles\<close>. \<open>chunk_loop\<close> is the \<^verbatim>\<open>for\<close> loop of
  \<^verbatim>\<open>chunkArray\<close> with its counter \<open>i\<close>; \<^verbatim>\<open>array.slice(i, i + size)\<close> is
  \<open>take sz (drop i array)\<close>. With a size of zero the loop does not end, which is the value
  \<open>None\<close>. \<open>render_chunks\<close> is the loop over the chunks, which waits for all renders of a
  chunk before it starts the next one. The files are paired with their positions so that
  \<open>spawns i\<close> tells how the process of the \<open>i\<close>-th file behaves. \<open>limit\<close> is
  \<^verbatim>\<open>this.config.maxConcurrentRenders\<close>, an optional number in the configuration type of
  the class.
\<close>

partial_function (option) chunk_loop :: "'a list \<Rightarrow> nat \<Rightarrow> nat \<Rightarrow> 'a list list \<Rightarrow> 'a list list option" where
  "chunk_loop array sz i chunks =
     (if i < length array then chunk_loop array sz (i + sz) (chunks @ [take sz (drop i array)])
      else Some chunks)"

definition chunkArray :: "'a list \<Rightarrow> nat \<Rightarrow> 'a list list option" where
  "chunkArray array sz = chunk_loop array sz 0 []"

fun render_chunks ::
  "(string \<Rightarrow> string \<Rightarrow> string) \<Rightarrow> string \<Rightarrow> (nat \<Rightarrow> spawn_outcome) \<Rightarrow> (nat \<times> string) list list \<Rightarrow> string RenderResult list \<Rightarrow> string RenderResult list promise" where
  "render_chunks join outDir spawns [] results = Resolves results"
| "render_chunks join outDir spawns (chunk # chunks) results =
     (case promise_all (map (\<lambda>(i, file). Renderer_renderFile join outDir file (spawns i)) chunk) of
        Resolves chunkResults \<Rightarrow> render_chunks join outDir spawns chunks (results @ chunkResults)
      | Rejects e \<Rightarrow> Rejects e
      | Pending \<Rightarrow> Pending)"

definition Renderer_maxConcurrent :: "nat option \<Rightarrow> nat" where
  "Renderer_maxConcurrent limit = (case limit of None \<Rightarrow> 4 | Some n \<Rightarrow> if n \<noteq> 0 then n else 4)"

definition Renderer_renderFiles ::
  "(string \<Rightarrow> string \<Rightarrow> string) \<Rightarrow> string \<Rightarrow> nat option \<Rightarrow> string list \<Rightarrow> (nat \<Rightarrow> spawn_outcome) \<Rightarrow> string RenderResult list promise" where
  "Renderer_renderFiles join outDir limit filePaths spawns =
     (if length filePaths = 0 then Resolves []
      else case chunkArray (enumerate 0 filePaths) (Renderer_maxConcurrent limit) of
             None \<Rightarrow> Pending
           | Some chunks \<Rightarrow> render_chunks join outDir spawns chunks [])"

subsection \<open>One outcome per path\<close>

lemma promise_all_resolved:
  assumes "\<forall>p\<in>set ps. \<exists>v. p = Resolves v"
  shows "\<exists>vs. promise_all ps = Resolves vs \<and> length vs = length ps \<and>
           (\<forall>i<length ps. ps ! i = Resolves (vs ! i))"
  using assms
proof (induction ps)
  case Nil
  show ?case by simp
next
  case (Cons p ps)
  from Cons.prems obtain v where p: "p = Resolves v" by auto
  from Cons obtain vs where vs: "promise_all ps = Resolves vs" "length vs = length ps"
    "\<forall>i<length ps. ps ! i = Resolves (vs ! i)" by auto
  have "\<forall>i<length (p # ps). (p # ps) ! i = Resolves ((v # vs) ! i)"
    using p vs(3) by (auto simp: nth_Cons split: nat.splits)
  with p vs show ?case by simp
qed

text \<open>The chunks that the loop appends from position \<open>i\<close> on, for a positive size.\<close>

function chunks_from :: "'a list \<Rightarrow> nat \<Rightarrow> nat \<Rightarrow> 'a list list" where
  "chunks_from array sz i =
     (if i < length array \<and> 0 < sz then take sz (drop i array) # chunks_from array sz (i + sz)
      else [])"
  by pat_completeness auto
termination
  by (relation "measure (\<lambda>(array, sz, i). length array - i)") auto

declare chunks_from.simps [simp del]

lemma chunk_loop_chunks_from:
  "0 < sz \<Longrightarrow> chunk_loop array sz i chunks = Some (chunks @ chunks_from array sz i)"
proof (induction array sz i arbitrary: chunks rule: chunks_from.induct)
  case (1 array sz i)
  show ?case
  proof (cases "i < length array")
    case True
    with 1 have "chunk_loop array sz (i + sz) (chunks @ [take sz (drop i array)]) =
        Some ((chunks @ [take sz (drop i array)]) @ chunks_from array sz (i + sz))"
      by simp
    with True 1(2) show ?thesis
      by (subst chunk_loop.simps, subst chunks_from.simps) simp
  next
    case False
    then show ?thesis
      by (subst chunk_loop.simps, subst chunks_from.simps) simp
  qed
qed

lemma concat_chunks_from: "0 < sz \<Longrightarrow> concat (chunks_from array sz i) = drop i array"
proof (induction array sz i rule: chunks_from.induct)
  case (1 array sz i)
  show ?case
  proof (cases "i < length array")
    case True
    with 1 have "concat (chunks_from array sz (i + sz)) = drop (i + sz) array" by simp
    with True 1(2) show ?thesis
      by (subst chunks_from.simps) (simp add: add.commute [of i sz] flip: drop_drop)
  next
    case False
    then show ?thesis by (subst chunks_from.simps) simp
  qed
qed


lemma chunkArray_Some: "0 < sz \<Longrightarrow> chunkArray array sz = Some (chunks_from array sz 0)"
  by (simp add: chunkArray_def chunk_loop_chunks_from)

lemma Renderer_maxConcurrent_pos: "0 < Renderer_maxConcurrent limit"
  by (simp add: Renderer_maxConcurrent_def split: option.splits)

lemma renderFile_settled:
  "outcome \<noteq> ExecaPending \<Longrightarrow> \<exists>r. renderFile join config file outcome = Resolves r"
  by (cases outcome) (simp_all add: renderFile_def)

lemma Renderer_renderFile_settled:
  "spawned \<noteq> Spawned [] \<Longrightarrow> \<exists>r. Renderer_renderFile join outDir file spawned = Resolves r"
  by (auto simp: Renderer_renderFile_def handleProcessResult_def
      split: spawn_outcome.splits list.splits process_event.splits)

lemma render_chunks_resolved:
  assumes "\<forall>t\<in>set (concat chunks). \<exists>v. (\<lambda>(i, file). Renderer_renderFile join outDir file (spawns i)) t = Resolves v"
  shows "\<exists>vs. render_chunks join outDir spawns chunks results = Resolves (results @ vs) \<and>
           length vs = length (concat chunks) \<and>
           (\<forall>k<length (concat chunks).
              (\<lambda>(i, file). Renderer_renderFile join outDir file (spawns i)) (concat chunks ! k) = Resolves (vs ! k))"
  using assms
proof (induction chunks arbitrary: results)
  case Nil
  show ?case by simp
next
  case (Cons chunk chunks)
  let ?f = "\<lambda>(i, file). Renderer_renderFile join outDir file (spawns i)"
  from Cons.prems have "\<forall>p\<in>set (map ?f chunk). \<exists>v. p = Resolves v" by auto
  from promise_all_resolved [OF this]
  obtain cs where cs: "promise_all (map ?f chunk) = Resolves cs" "length cs = length chunk"
    "\<forall>i<length chunk. ?f (chunk ! i) = Resolves (cs ! i)" by auto
  from Cons.prems have "\<forall>t\<in>set (concat chunks). \<exists>v. ?f t = Resolves v" by auto
  from Cons.IH [OF this, of "results @ cs"]
  obtain vs where vs: "render_chunks join outDir spawns chunks (results @ cs) = Resolves ((results @ cs) @ vs)"
    "length vs = length (concat chunks)"
    "\<forall>k<length (concat chunks). ?f (concat chunks ! k) = Resolves (vs ! k)" by auto
  have run: "render_chunks join outDir spawns (chunk # chunks) results = Resolves (results @ (cs @ vs))"
    using cs(1) vs(1) by simp
  have len: "length (cs @ vs) = length (concat (chunk # chunks))"
    using cs(2) vs(2) by simp
  have "?f (concat (chunk # chunks) ! k) = Resolves ((cs @ vs) ! k)" if "k < length (concat (chunk # chunks))" for k
  proof (cases "k < length chunk")
    case True
    with cs(2,3) show ?thesis by (simp add: nth_append)
  next
    case False
    with that have "k - length chunk < length (concat chunks)" by simp
    with vs(3) False cs(2) show ?thesis by (simp add: nth_append)
  qed
  with run len show ?case by blast
qed

text \<open>
  Claim C2. For every input sequence of entry-point paths, the array that the scheduler
  returns has exactly one outcome per input path: it is as long as the input and its
  \<open>i\<close>-th element is the outcome of rendering the \<open>i\<close>-th path, whether that is a success or
  a failure, so a failure for one path removes no other outcome. This holds for
  \<^verbatim>\<open>renderWithConcurrency\<close> with a concurrency that \<^verbatim>\<open>pLimit\<close> accepts and for
  \<^verbatim>\<open>Renderer.renderFiles\<close>, once every worker process has ended.
\<close>

theorem every_path_gets_exactly_one_outcome:
  "(maxConcurrent config cpus \<noteq> 0 \<and> (\<forall>i<length files. workers i \<noteq> ExecaPending) \<longrightarrow>
      (\<exists>results. renderWithConcurrency join config cpus files workers = Resolves results \<and>
         length results = length files \<and>
         (\<forall>i<length files. renderFile join config (files ! i) (workers i) = Resolves (results ! i)))) \<and>
   ((\<forall>i<length files. spawns i \<noteq> Spawned []) \<longrightarrow>
      (\<exists>results. Renderer_renderFiles join outDir limit files spawns = Resolves results \<and>
         length results = length files \<and>
         (\<forall>i<length files. Renderer_renderFile join outDir (files ! i) (spawns i) = Resolves (results ! i))))"
proof (intro conjI impI)
  assume a: "maxConcurrent config cpus \<noteq> 0 \<and> (\<forall>i<length files. workers i \<noteq> ExecaPending)"
  let ?ps = "map (\<lambda>(i, file). renderFile join config file (workers i)) (enumerate 0 files)"
  have nth: "?ps ! i = renderFile join config (files ! i) (workers i)" if "i < length files" for i
    using that by (simp add: nth_enumerate_eq)
  have "\<forall>p\<in>set ?ps. \<exists>v. p = Resolves v"
  proof
    fix p assume "p \<in> set ?ps"
    then obtain i where i: "i < length files" and p: "p = ?ps ! i"
      by (auto simp: in_set_conv_nth)
    from a i have "workers i \<noteq> ExecaPending" by simp
    from renderFile_settled [OF this] p nth [OF i] show "\<exists>v. p = Resolves v" by simp
  qed
  from promise_all_resolved [OF this]
  obtain vs where vs: "promise_all ?ps = Resolves vs" "length vs = length files"
    "\<forall>i<length files. ?ps ! i = Resolves (vs ! i)" by auto
  from vs(3) nth have "\<forall>i<length files. renderFile join config (files ! i) (workers i) = Resolves (vs ! i)"
    by simp
  with a vs(1,2) show "\<exists>results. renderWithConcurrency join config cpus files workers = Resolves results \<and>
         length results = length files \<and>
         (\<forall>i<length files. renderFile join config (files ! i) (workers i) = Resolves (results ! i))"
    by (simp add: renderWithConcurrency_def)
next
  assume a: "\<forall>i<length files. spawns i \<noteq> Spawned []"
  let ?f = "\<lambda>(i, file). Renderer_renderFile join outDir file (spawns i)"
  let ?chunks = "chunks_from (enumerate 0 files) (Renderer_maxConcurrent limit) 0"
  have cc: "concat ?chunks = enumerate 0 files"
    by (simp add: concat_chunks_from Renderer_maxConcurrent_pos)
  have nth: "?f (enumerate 0 files ! i) = Renderer_renderFile join outDir (files ! i) (spawns i)"
    if "i < length files" for i
    using that by (simp add: nth_enumerate_eq)
  have "\<forall>t\<in>set (concat ?chunks). \<exists>v. ?f t = Resolves v"
  proof
    fix t assume "t \<in> set (concat ?chunks)"
    then obtain i where i: "i < length files" and t: "t = enumerate 0 files ! i"
      unfolding cc by (auto simp: in_set_conv_nth)
    from a i have "spawns i \<noteq> Spawned []" by simp
    from Renderer_renderFile_settled [OF this] t nth [OF i] show "\<exists>v. ?f t = Resolves v" by simp
  qed
  from render_chunks_resolved [OF this, of "[]"]
  obtain vs where vs: "render_chunks join outDir spawns ?chunks [] = Resolves vs"
    "length vs = length files"
    "\<forall>k<length files. ?f (enumerate 0 files ! k) = Resolves (vs ! k)"
    unfolding cc by auto
  from vs(3) nth have r: "\<forall>i<length files. Renderer_renderFile join outDir (files ! i) (spawns i) = Resolves (vs ! i)"
    by simp
  show "\<exists>results. Renderer_renderFiles join outDir limit files spawns = Resolves results \<and>
         length results = length files \<and>
         (\<forall>i<length files. Renderer_renderFile join outDir (files ! i) (spawns i) = Resolves (results ! i))"
  proof (cases "files = []")
    case True
    then show ?thesis by (simp add: Renderer_renderFiles_def)
  next
    case False
    then have "Renderer_renderFiles join outDir limit files spawns = Resolves vs"
      using vs(1) by (simp add: Renderer_renderFiles_def chunkArray_Some Renderer_maxConcurrent_pos)
    with vs(2) r show ?thesis by blast
  qed
qed

text \<open>Three files, two at a time; the worker of the second file exits with code 1.\<close>

definition example_join :: "string \<Rightarrow> string \<Rightarrow> string" where
  "example_join a b = (if a = [] then b else a @ ''/'' @ b)"

definition example_files :: "string list" where
  "example_files = [''home.tsx'', ''about.tsx'', ''contact.tsx'']"

definition example_workers :: "nat \<Rightarrow> execa_outcome" where
  "example_workers i = (if i = 1 then ExecaRejected (Some ''boom'') (Some 1) else ExecaResolved)"

definition example_spawns :: "nat \<Rightarrow> spawn_outcome" where
  "example_spawns i = (if i = 1 then Spawned [Close (Some 1) None] else Spawned [Close (Some 0) None])"

definition two_at_a_time :: RenderConfig where
  "two_at_a_time = example_config\<lparr>maxConcurrentRenders := Some (Limit 2)\<rparr>"

theorem every_path_gets_exactly_one_outcome_witness:
  "maxConcurrent two_at_a_time 8 \<noteq> 0 \<and>
   example_workers 0 \<noteq> ExecaPending \<and> example_workers 1 \<noteq> ExecaPending \<and>
   example_workers 2 \<noteq> ExecaPending \<and>
   example_spawns 0 \<noteq> Spawned [] \<and> example_spawns 1 \<noteq> Spawned [] \<and> example_spawns 2 \<noteq> Spawned [] \<and>
   renderWithConcurrency example_join two_at_a_time 8 example_files example_workers =
     Resolves [Success ''dist/home.tsx'',
               Failure \<lparr> message = ''boom'', code = ''PROCESS_EXIT_ERROR'',
                          filePath = Some ''about.tsx'', cause = None \<rparr>,
               Success ''dist/contact.tsx''] \<and>
   Renderer_renderFiles example_join ''dist'' (Some 2) example_files example_spawns =
     Resolves [Success ''dist/home.tsx'',
               Failure \<lparr> message = ''Render process exited with code 1'', code = ''PROCESS_EXIT_ERROR'',
                          filePath = Some ''about.tsx'', cause = None \<rparr>,
               Success ''dist/contact.tsx'']"
proof -
  have m: "maxConcurrent two_at_a_time 8 \<noteq> 0" by code_simp
  have w: "example_workers 0 \<noteq> ExecaPending" "example_workers 1 \<noteq> ExecaPending"
    "example_workers 2 \<noteq> ExecaPending"
    by (simp_all add: example_workers_def)
  have s: "example_spawns 0 \<noteq> Spawned []" "example_spawns 1 \<noteq> Spawned []"
    "example_spawns 2 \<noteq> Spawned []"
    by (simp_all add: example_spawns_def)
  have len: "length example_files = 3" by (simp add: example_files_def)
  have wall: "\<forall>i<length example_files. example_workers i \<noteq> ExecaPending"
    by (simp add: example_workers_def)
  have sall: "\<forall>i<length example_files. example_spawns i \<noteq> Spawned []"
    by (simp add: example_spawns_def)
  note main = every_path_gets_exactly_one_outcome
      [of two_at_a_time 8 example_files example_workers example_join example_spawns "''dist''" "Some 2"]
  from main m wall obtain rs where
    rs: "renderWithConcurrency example_join two_at_a_time 8 example_files example_workers = Resolves rs"
      "\<forall>i<length example_files. renderFile example_join two_at_a_time (example_files ! i) (example_workers i) = Resolves (rs ! i)"
      "length rs = length example_files"
    by blast
  have r0: "renderFile example_join two_at_a_time (example_files ! 0) (example_workers 0) =
      Resolves (Success ''dist/home.tsx'')" by code_simp
  have r1: "renderFile example_join two_at_a_time (example_files ! 1) (example_workers 1) =
      Resolves (Failure \<lparr> message = ''boom'', code = ''PROCESS_EXIT_ERROR'',
                          filePath = Some ''about.tsx'', cause = None \<rparr>)" by code_simp
  have r2: "renderFile example_join two_at_a_time (example_files ! 2) (example_workers 2) =
      Resolves (Success ''dist/contact.tsx'')" by code_simp
  have i0: "renderFile example_join two_at_a_time (example_files ! 0) (example_workers 0) = Resolves (rs ! 0)"
    using rs(2) [rule_format, of 0] len by simp
  have i1: "renderFile example_join two_at_a_time (example_files ! 1) (example_workers 1) = Resolves (rs ! 1)"
    using rs(2) [rule_format, of 1] len by simp
  have i2: "renderFile example_join two_at_a_time (example_files ! 2) (example_workers 2) = Resolves (rs ! 2)"
    using rs(2) [rule_format, of 2] len by simp
  from rs(3) len obtain x y z where xyz: "rs = [x, y, z]"
    by (auto simp: length_Suc_conv numeral_3_eq_3)
  from i0 r0 xyz have x: "x = Success ''dist/home.tsx''" by simp
  from i1 r1 xyz have y: "y = Failure \<lparr> message = ''boom'', code = ''PROCESS_EXIT_ERROR'',
                          filePath = Some ''about.tsx'', cause = None \<rparr>" by simp
  from i2 r2 xyz have z: "z = Success ''dist/contact.tsx''" by simp
  note rsv = rs(1) [unfolded xyz x y z]
  have chunks: "chunkArray (enumerate 0 example_files) (Renderer_maxConcurrent (Some 2)) =
      Some [[(0, ''home.tsx''), (1, ''about.tsx'')], [(2, ''contact.tsx'')]]"
    by (simp add: chunkArray_Some Renderer_maxConcurrent_def chunks_from.simps example_files_def)
  have q0: "Renderer_renderFile example_join ''dist'' ''home.tsx'' (example_spawns 0) =
      Resolves (Success ''dist/home.tsx'')" by code_simp
  have q1: "Renderer_renderFile example_join ''dist'' ''about.tsx'' (example_spawns (Suc 0)) =
      Resolves (Failure \<lparr> message = ''Render process exited with code 1'', code = ''PROCESS_EXIT_ERROR'',
                          filePath = Some ''about.tsx'', cause = None \<rparr>)" by code_simp
  have q2: "Renderer_renderFile example_join ''dist'' ''contact.tsx'' (example_spawns 2) =
      Resolves (Success ''dist/contact.tsx'')" by code_simp
  have qsv: "Renderer_renderFiles example_join ''dist'' (Some 2) example_files example_spawns =
      Resolves [Success ''dist/home.tsx'',
               Failure \<lparr> message = ''Render process exited with code 1'', code = ''PROCESS_EXIT_ERROR'',
                          filePath = Some ''about.tsx'', cause = None \<rparr>,
               Success ''dist/contact.tsx'']"
    unfolding Renderer_renderFiles_def chunks
    by (simp add: q0 q1 q2 len)
  from m w s rsv qsv show ?thesis by (intro conjI)
qed


section \<open>The render action of the command line\<close>

text \<open>
  The options that \<^verbatim>\<open>renderAction\<close> reads (\<^verbatim>\<open>options.output\<close> is \<open>output_option\<close>; the
  overrides of the port and of the verbosity set fields that no modelled function reads),
  and how the action ends: with \<^verbatim>\<open>process.exit(n)\<close>, in watch mode, or not at all while a render
  is pending. \<open>configResult\<close> is what \<^verbatim>\<open>loadConfig\<close> returned; on a failure
  \<^verbatim>\<open>handleConfigLoad\<close> calls \<^verbatim>\<open>process.exit(1)\<close>. \<open>entryPoints\<close> is what \<^verbatim>\<open>findEntryPoints\<close>
  returned. An exception lands in the \<^verbatim>\<open>catch\<close> block, which calls \<^verbatim>\<open>process.exit(1)\<close>;
  \<^verbatim>\<open>reportResults\<close> only prints.
\<close>

record RenderOptions =
  watch :: bool
  output_option :: "string option"

datatype cli_end = Exit nat | Watching | NeverExits

definition applyCliOverrides :: "RenderConfig \<Rightarrow> RenderOptions \<Rightarrow> RenderConfig" where
  "applyCliOverrides config options =
     (case output_option options of
        None \<Rightarrow> config
      | Some dir \<Rightarrow> if dir \<noteq> [] then config\<lparr>outputDir := dir\<rparr> else config)"

definition renderAction ::
  "(string \<Rightarrow> string \<Rightarrow> string) \<Rightarrow> RenderConfig RenderResult \<Rightarrow> RenderOptions \<Rightarrow> string list \<Rightarrow> string list \<Rightarrow> nat \<Rightarrow> (nat \<Rightarrow> execa_outcome) \<Rightarrow> cli_end" where
  "renderAction join configResult options files entryPoints cpus workers =
     (case configResult of
        Failure error \<Rightarrow> Exit 1
      | Success baseConfig \<Rightarrow>
          (let config = applyCliOverrides baseConfig options;
               results = (if length files > 0
                          then renderWithConcurrency join config cpus files workers
                          else renderWithConcurrency join config cpus entryPoints workers)
           in case results of
                Rejects error \<Rightarrow> Exit 1
              | Pending \<Rightarrow> NeverExits
              | Resolves rs \<Rightarrow> if watch options then Watching else Exit 0))"

text \<open>The batch that is rendered, and whether an outcome is a success.\<close>

definition batch_of :: "string list \<Rightarrow> string list \<Rightarrow> string list" where
  "batch_of files entryPoints = (if length files > 0 then files else entryPoints)"

definition succeeded :: "'a RenderResult \<Rightarrow> bool" where
  "succeeded r = (case r of Success data \<Rightarrow> True | Failure error \<Rightarrow> False)"

text \<open>
  Claim C4, amended. The render action exits with code 1 when the configuration could
  not be loaded. In non-watch mode, once the batch has completed, it exits with code 0,
  whatever the outcomes of the renders are.
\<close>

theorem renderAction_exit_code:
  "(renderAction join (Failure error) options files entryPoints cpus workers = Exit 1) \<and>
   (\<not> watch options \<and>
    renderWithConcurrency join (applyCliOverrides baseConfig options) cpus (batch_of files entryPoints) workers =
      Resolves results \<longrightarrow>
    renderAction join (Success baseConfig) options files entryPoints cpus workers = Exit 0)"
  by (auto simp: renderAction_def batch_of_def Let_def)

text \<open>
  Claim C4 as stated fails: in non-watch mode, with a batch in which the render of
  \<^verbatim>\<open>about.tsx\<close> failed, the action exits with code 0.
\<close>

definition no_watch :: RenderOptions where
  "no_watch = \<lparr> watch = False, output_option = None \<rparr>"

lemma example_batch:
  "renderWithConcurrency example_join (applyCliOverrides two_at_a_time no_watch) 8
       (batch_of example_files []) example_workers =
     Resolves [Success ''dist/home.tsx'',
               Failure \<lparr> message = ''boom'', code = ''PROCESS_EXIT_ERROR'',
                          filePath = Some ''about.tsx'', cause = None \<rparr>,
               Success ''dist/contact.tsx'']"
  by code_simp

theorem failed_render_exit_code_counterexample:
  "\<not> watch no_watch \<and>
   renderWithConcurrency example_join (applyCliOverrides two_at_a_time no_watch) 8
       (batch_of example_files []) example_workers =
     Resolves [Success ''dist/home.tsx'',
               Failure \<lparr> message = ''boom'', code = ''PROCESS_EXIT_ERROR'',
                          filePath = Some ''about.tsx'', cause = None \<rparr>,
               Success ''dist/contact.tsx''] \<and>
   \<not> succeeded (Failure \<lparr> message = ''boom'', code = ''PROCESS_EXIT_ERROR'',
                          filePath = Some ''about.tsx'', cause = None \<rparr> :: string RenderResult) \<and>
   renderAction example_join (Success two_at_a_time) no_watch example_files [] 8 example_workers = Exit 0"
proof -
  have a: "\<not> watch no_watch" by (simp add: no_watch_def)
  have b: "\<not> succeeded (Failure \<lparr> message = ''boom'', code = ''PROCESS_EXIT_ERROR'',
                          filePath = Some ''about.tsx'', cause = None \<rparr> :: string RenderResult)"
    by (simp add: succeeded_def)
  have c: "renderAction example_join (Success two_at_a_time) no_watch example_files [] 8 example_workers = Exit 0"
    by code_simp
  from a example_batch b c show ?thesis by (intro conjI)
qed

theorem renderAction_exit_code_witness:
  "\<not> watch no_watch \<and>
   renderWithConcurrency example_join (applyCliOverrides two_at_a_time no_watch) 8
       (batch_of example_files []) example_workers =
     Resolves [Success ''dist/home.tsx'',
               Failure \<lparr> message = ''boom'', code = ''PROCESS_EXIT_ERROR'',
                          filePath = Some ''about.tsx'', cause = None \<rparr>,
               Success ''dist/contact.tsx''] \<and>
   renderAction example_join (Success two_at_a_time) no_watch example_files [] 8 example_workers = Exit 0 \<and>
   renderAction example_join
       (Failure \<lparr> message = ''No configuration file found'', code = ''CONFIG_NOT_FOUND'',
                   filePath = None, cause = None \<rparr>)
       no_watch example_files [] 8 example_workers = Exit 1"
proof -
  have a: "\<not> watch no_watch" by (simp add: no_watch_def)
  note main = renderAction_exit_code [of example_join
      "\<lparr> message = ''No configuration file found'', code = ''CONFIG_NOT_FOUND'',
         filePath = None, cause = None \<rparr>" no_watch example_files "[]" 8 example_workers two_at_a_time]
  from main a example_batch
  have c: "renderAction example_join (Success two_at_a_time) no_watch example_files [] 8 example_workers = Exit 0"
    by blast
  from main have d: "renderAction example_join
       (Failure \<lparr> message = ''No configuration file found'', code = ''CONFIG_NOT_FOUND'',
                   filePath = None, cause = None \<rparr>)
       no_watch example_files [] 8 example_workers = Exit 1"
    by blast
  from a example_batch c d show ?thesis by (intro conjI)
qed


section \<open>Renders in flight\<close>

















subsection \<open>The bound\<close>
















subsection \<open>Overlapping calls\<close>





subsection \<open>The bound of one call\<close>




section \<open>Template merge\<close>

subsection \<open>The pattern of the insertion point\<close>

text \<open>
  \<^verbatim>\<open>escapeRegex\<close> puts a backslash before each of the fourteen characters of the class
  \<^verbatim>\<open>[.*+?^${}()|[\]\\]\<close>; these are the syntax characters of the pattern grammar.
  \<open>pattern_literal\<close> reads a piece of pattern text the way the \<^verbatim>\<open>RegExp\<close> constructor
  does, as far as the piece is a sequence of characters that stand for themselves: a
  backslash followed by a syntax character stands for that character, any other
  character that is not a syntax character stands for itself, and \<open>None\<close> is every other
  piece (an operator, a class, another escape, or no pattern at all).
\<close>

definition syntax_characters :: "char set" where
  "syntax_characters = set ''.*+?^${}()|[]'' \<union> {CHR 0x5C}"

definition escapeRegex :: "string \<Rightarrow> string" where
  "escapeRegex str = concat (map (\<lambda>c. if c \<in> syntax_characters then [CHR 0x5C, c] else [c]) str)"

fun pattern_literal :: "string \<Rightarrow> string option" where
  "pattern_literal [] = Some []"
| "pattern_literal (c # cs) =
     (if c = CHR 0x5C then
        (case cs of
           [] \<Rightarrow> None
         | d # ds \<Rightarrow> if d \<in> syntax_characters then map_option (Cons d) (pattern_literal ds) else None)
      else if c \<in> syntax_characters then None
      else map_option (Cons c) (pattern_literal cs))"

text \<open>
  The pattern \<^verbatim>\<open><div\s+id=["']ID["'][^>]*>.*?</div>\<close> is compiled with the flags \<^verbatim>\<open>i\<close> and
  \<^verbatim>\<open>s\<close>. With \<^verbatim>\<open>i\<close> two characters match when their canonical forms are equal; for code
  units below 256 the canonical form is the upper-case letter for \<^verbatim>\<open>a\<close> to \<^verbatim>\<open>z\<close> and for
  the letters 224 to 254 other than 247, and the character itself otherwise. \<^verbatim>\<open>\s\<close> is
  \<open>js_whitespace\<close>. \<open>match_here\<close> matches the pattern at the start of a string and
  returns the length of the match: the greedy \<^verbatim>\<open>\s+\<close> and \<^verbatim>\<open>[^>]*\<close> take their longest
  runs (a shorter run is followed by a character that the next piece refuses), and the
  lazy \<^verbatim>\<open>.*?\<close> ends at the first \<^verbatim>\<open></div>\<close>. \<open>regex_search\<close> is the search for the
  leftmost match: start index and length.
\<close>

definition canonicalize :: "char \<Rightarrow> char" where
  "canonicalize c =
     (let n = of_char c :: nat
      in if (97 \<le> n \<and> n \<le> 122) \<or> (224 \<le> n \<and> n \<le> 254 \<and> n \<noteq> 247) then char_of (n - 32) else c)"

definition ci_eq :: "string \<Rightarrow> string \<Rightarrow> bool" where
  "ci_eq a b = (map canonicalize a = map canonicalize b)"

definition ci_prefix :: "string \<Rightarrow> string \<Rightarrow> bool" where
  "ci_prefix p s = (length p \<le> length s \<and> ci_eq p (take (length p) s))"

definition is_quote :: "char \<Rightarrow> bool" where
  "is_quote c = (c = CHR 0x22 \<or> c = CHR 0x27)"

fun find_close :: "string \<Rightarrow> nat option" where
  "find_close [] = None"
| "find_close (c # cs) =
     (if ci_prefix ''</div>'' (c # cs) then Some 0 else map_option Suc (find_close cs))"

definition match_here :: "string \<Rightarrow> string \<Rightarrow> nat option" where
  "match_here lit s =
     (if \<not> ci_prefix ''<div'' s then None
      else
        (let r1 = drop 4 s;
             ws = takeWhile js_whitespace r1;
             r2 = dropWhile js_whitespace r1
         in if ws = [] then None
            else if \<not> ci_prefix ''id='' r2 then None
            else
              (case drop 3 r2 of
                 [] \<Rightarrow> None
               | q1 # r4 \<Rightarrow>
                   if \<not> is_quote q1 then None
                   else if \<not> ci_prefix lit r4 then None
                   else
                     (case drop (length lit) r4 of
                        [] \<Rightarrow> None
                      | q2 # r6 \<Rightarrow>
                          if \<not> is_quote q2 then None
                          else
                            (let attrs = takeWhile (\<lambda>c. c \<noteq> CHR ''>'') r6
                             in case dropWhile (\<lambda>c. c \<noteq> CHR ''>'') r6 of
                                  [] \<Rightarrow> None
                                | gt # r8 \<Rightarrow>
                                    (case find_close r8 of
                                       None \<Rightarrow> None
                                     | Some k \<Rightarrow>
                                         Some (4 + length ws + 3 + 1 + length lit + 1 +
                                               length attrs + 1 + k + 6)))))))"

fun regex_search :: "string \<Rightarrow> string \<Rightarrow> (nat \<times> nat) option" where
  "regex_search lit [] = map_option (Pair 0) (match_here lit [])"
| "regex_search lit (c # cs) =
     (case match_here lit (c # cs) of
        Some n \<Rightarrow> Some (0, n)
      | None \<Rightarrow> map_option (\<lambda>(i, n). (Suc i, n)) (regex_search lit cs))"

text \<open>The second pattern \<^verbatim>\<open>/^<div[^>]*>/i\<close>, applied to the matched text.\<close>

definition open_tag :: "string \<Rightarrow> string option" where
  "open_tag m =
     (if \<not> ci_prefix ''<div'' m then None
      else case dropWhile (\<lambda>c. c \<noteq> CHR ''>'') (drop 4 m) of
             [] \<Rightarrow> None
           | gt # rest \<Rightarrow> Some (take (4 + length (takeWhile (\<lambda>c. c \<noteq> CHR ''>'') (drop 4 m)) + 1) m))"

subsection \<open>The merge functions\<close>

text \<open>
  \<^verbatim>\<open>MountInfo\<close> without its React node, which the merge does not read, and
  \<^verbatim>\<open>MergeContext\<close>. \<open>replace_root\<close> is \<^verbatim>\<open>divRegex.test(template)\<close> followed by
  \<^verbatim>\<open>template.replace(divRegex, ...)\<close>, \<open>None\<close> where the test fails. \<^verbatim>\<open>mergeLiquidTemplate\<close>
  and \<^verbatim>\<open>mergeHTMLTemplate\<close> differ in the message of the last \<^verbatim>\<open>throw\<close> only; a thrown
  \<^verbatim>\<open>Error\<close> is \<open>Inl\<close> of its message.
\<close>

record MountInfo =
  rootElementId :: string

record MergeContext =
  template :: string
  content :: string
  styles :: string
  mountInfo :: MountInfo

definition replace_root :: "string \<Rightarrow> MergeContext \<Rightarrow> string option" where
  "replace_root lit context =
     (case regex_search lit (template context) of
        None \<Rightarrow> None
      | Some (i, n) \<Rightarrow>
          (let matched = take n (drop i (template context));
               replacement = (case open_tag matched of
                                Some openTag \<Rightarrow> openTag @ styles context @ content context @ ''</div>''
                              | None \<Rightarrow> matched)
           in Some (take i (template context) @ replacement @ drop (i + n) (template context))))"

definition merge_with :: "string \<Rightarrow> MergeContext \<Rightarrow> string + string" where
  "merge_with not_found context =
     (if template context = [] then Inl ''Template content is required''
      else if content context = [] then Inl ''Rendered content is required''
      else if rootElementId (mountInfo context) = [] then Inl ''Mount info with rootElementId is required''
      else case pattern_literal (escapeRegex (rootElementId (mountInfo context))) of
             None \<Rightarrow> Inl ''Invalid regular expression''
           | Some lit \<Rightarrow>
               (case replace_root lit context of
                  Some merged \<Rightarrow> Inr merged
                | None \<Rightarrow> Inl not_found))"

definition mergeLiquidTemplate :: "MergeContext \<Rightarrow> string + string" where
  "mergeLiquidTemplate context =
     merge_with (''No div with id='' @ [CHR 0x22] @ rootElementId (mountInfo context) @ [CHR 0x22] @
                 '' found in template'') context"

definition mergeHTMLTemplate :: "MergeContext \<Rightarrow> string + string" where
  "mergeHTMLTemplate context =
     merge_with (''Could not find <div id='' @ [CHR 0x22] @ rootElementId (mountInfo context) @ [CHR 0x22] @
                 ''> in template'') context"


subsection \<open>What a match looks like\<close>

lemma pattern_literal_escapeRegex: "pattern_literal (escapeRegex str) = Some str"
proof (induction str)
  case Nil
  show ?case by (simp add: escapeRegex_def)
next
  case (Cons c cs)
  have bs: "CHR 0x5C \<in> syntax_characters" by (simp add: syntax_characters_def)
  from Cons have ih: "pattern_literal (concat (map (\<lambda>c. if c \<in> syntax_characters then [CHR 0x5C, c] else [c]) cs)) = Some cs"
    by (simp add: escapeRegex_def)
  show ?case
  proof (cases "c \<in> syntax_characters")
    case True
    with ih show ?thesis by (simp add: escapeRegex_def)
  next
    case False
    with bs have "c \<noteq> CHR 0x5C" by auto
    with False ih show ?thesis by (simp add: escapeRegex_def)
  qed
qed

lemma ci_prefix_take:
  "ci_prefix p s \<Longrightarrow> length p = k \<Longrightarrow> length (take k s) = k \<and> ci_eq p (take k s)"
  by (auto simp: ci_prefix_def)

lemma match_here_SomeD:
  assumes "match_here lit s = Some n"
  shows "\<exists>tag ws ideq q1 idtext q2 attrs r8 k.
           s = tag @ ws @ ideq @ [q1] @ idtext @ [q2] @ attrs @ [CHR ''>''] @ r8 \<and>
           length tag = 4 \<and> ci_eq ''<div'' tag \<and>
           ws \<noteq> [] \<and> list_all js_whitespace ws \<and>
           length ideq = 3 \<and> ci_eq ''id='' ideq \<and>
           is_quote q1 \<and> length idtext = length lit \<and> ci_eq lit idtext \<and> is_quote q2 \<and>
           CHR ''>'' \<notin> set attrs \<and> find_close r8 = Some k \<and>
           n = 4 + length ws + 3 + 1 + length lit + 1 + length attrs + 1 + k + 6"
proof -
  define r1 where "r1 = drop 4 s"
  define ws where "ws = takeWhile js_whitespace r1"
  define r2 where "r2 = dropWhile js_whitespace r1"
  define r3 where "r3 = drop 3 r2"
  from assms have p1: "ci_prefix ''<div'' s"
    by (auto simp: match_here_def split: if_splits)
  from assms p1 have ws: "ws \<noteq> []"
    by (auto simp: match_here_def Let_def ws_def r1_def split: if_splits)
  from assms p1 ws have p2: "ci_prefix ''id='' r2"
    by (auto simp: match_here_def Let_def ws_def r1_def r2_def split: if_splits)
  from assms p1 ws p2 obtain q1 r4 where r3: "r3 = q1 # r4" and q1: "is_quote q1"
    and p3: "ci_prefix lit r4"
    by (auto simp: match_here_def Let_def ws_def r1_def r2_def r3_def split: if_splits list.splits)
  define r5 where "r5 = drop (length lit) r4"
  from assms p1 ws p2 r3 q1 p3 obtain q2 r6 where r5: "r5 = q2 # r6" and q2: "is_quote q2"
    by (auto simp: match_here_def Let_def ws_def r1_def r2_def r3_def r5_def split: if_splits list.splits)
  define attrs where "attrs = takeWhile (\<lambda>c. c \<noteq> CHR ''>'') r6"
  from assms p1 ws p2 r3 q1 p3 r5 q2 obtain gt r8 k where
    r7: "dropWhile (\<lambda>c. c \<noteq> CHR ''>'') r6 = gt # r8" and k: "find_close r8 = Some k"
    and n: "n = 4 + length ws + 3 + 1 + length lit + 1 + length attrs + 1 + k + 6"
    by (auto simp: match_here_def Let_def ws_def r1_def r2_def r3_def r5_def attrs_def
        split: if_splits list.splits option.splits)
  from r7 have gt: "gt = CHR ''>''"
    using hd_dropWhile [of "\<lambda>c. c \<noteq> CHR ''>''" r6] by auto
  have s1: "s = take 4 s @ r1" by (simp add: r1_def)
  have s2: "r1 = ws @ r2" by (simp add: ws_def r2_def)
  have s3: "r2 = take 3 r2 @ r3" by (simp add: r3_def)
  have s4: "r4 = take (length lit) r4 @ r5" by (simp add: r5_def)
  have s5: "r6 = attrs @ gt # r8" using r7 [symmetric] by (simp add: attrs_def)
  have dec: "s = take 4 s @ ws @ take 3 r2 @ [q1] @ take (length lit) r4 @ [q2] @ attrs @ [CHR ''>''] @ r8"
    using s1 s2 s3 s4 s5 r3 r5 gt by (metis append_Cons append_Nil)
  have l1: "length (take 4 s) = 4" "ci_eq ''<div'' (take 4 s)"
    using ci_prefix_take [OF p1, of 4] by simp_all
  have l2: "length (take 3 r2) = 3" "ci_eq ''id='' (take 3 r2)"
    using ci_prefix_take [OF p2, of 3] by simp_all
  have l3: "length (take (length lit) r4) = length lit" "ci_eq lit (take (length lit) r4)"
    using ci_prefix_take [OF p3, of "length lit"] by simp_all
  have l4: "list_all js_whitespace ws"
    by (simp add: ws_def list_all_iff) (meson set_takeWhileD)
  have l5: "CHR ''>'' \<notin> set attrs"
    by (auto simp: attrs_def dest: set_takeWhileD)
  from dec l1 l2 l3 l4 l5 ws q1 q2 k n show ?thesis by blast
qed

lemma regex_search_SomeD:
  "regex_search lit s = Some (i, n) \<Longrightarrow> i \<le> length s \<and> match_here lit (drop i s) = Some n"
proof (induction s arbitrary: i)
  case Nil
  then show ?case by auto
next
  case (Cons c cs)
  show ?case
  proof (cases "match_here lit (c # cs)")
    case (Some m)
    with Cons.prems show ?thesis by simp
  next
    case None
    with Cons.prems obtain j where "regex_search lit cs = Some (j, n)" and "i = Suc j"
      by (auto split: option.splits)
    with Cons.IH show ?thesis by auto
  qed
qed







subsection \<open>A missing insertion point\<close>












text \<open>
  Claim C8 as stated fails, in two ways. The template \<^verbatim>\<open><body><div id="app" class=x>old</div></body>\<close>
  has one \<^verbatim>\<open>id\<close> attribute, of value \<^verbatim>\<open>app\<close>, so it has no element of id \<^verbatim>\<open>App\<close>; the merge
  for the id \<^verbatim>\<open>App\<close> does not fail: it fills the element of id \<^verbatim>\<open>app\<close>. And a component that
  renders to the empty string, merged into that template for the id \<^verbatim>\<open>root\<close>, which no
  element has, fails with the message of the check of the content, which does not name the
  id.
\<close>

definition page :: string where
  "page = ''<body><div id='' @ [CHR 0x22] @ ''app'' @ [CHR 0x22] @ '' class=x>old</div></body>''"


definition product_render :: MergeContext where
  "product_render = \<lparr> template = page, content = ''<p>hi</p>'', styles = ''<style></style>'',
                       mountInfo = \<lparr> rootElementId = ''root'' \<rparr> \<rparr>"








subsection \<open>Escaping of the id\<close>

text \<open>
  Claim C10, amended. For every id, whatever characters it contains, the escaped id is a
  piece of pattern text that stands for the characters of the id themselves, so building
  the pattern never fails; and the search matches only at a \<^verbatim>\<open>div\<close> tag followed by white
  space, \<^verbatim>\<open>id=\<close>, a quote, a text that equals the id up to the case of letters, and a
  quote. The match ignores the case of letters because the pattern is compiled with the
  flag \<^verbatim>\<open>i\<close>.
\<close>

theorem escaped_id_matches_up_to_letter_case:
  "pattern_literal (escapeRegex rid) = Some rid \<and>
   (regex_search rid tpl = Some (i, n) \<longrightarrow>
      (\<exists>tag ws ideq q1 idtext q2 rest.
         drop i tpl = tag @ ws @ ideq @ [q1] @ idtext @ [q2] @ rest \<and>
         ci_eq ''<div'' tag \<and> ws \<noteq> [] \<and> list_all js_whitespace ws \<and> ci_eq ''id='' ideq \<and>
         is_quote q1 \<and> is_quote q2 \<and> ci_eq rid idtext))"
proof (intro conjI impI)
  show "pattern_literal (escapeRegex rid) = Some rid"
    by (rule pattern_literal_escapeRegex)
next
  assume "regex_search rid tpl = Some (i, n)"
  from regex_search_SomeD [OF this] have "match_here rid (drop i tpl) = Some n" by simp
  from match_here_SomeD [OF this] obtain tag ws ideq q1 idtext q2 attrs r8 where
    "drop i tpl = tag @ ws @ ideq @ [q1] @ idtext @ [q2] @ attrs @ [CHR ''>''] @ r8"
    "ci_eq ''<div'' tag" "ws \<noteq> []" "list_all js_whitespace ws" "ci_eq ''id='' ideq"
    "is_quote q1" "is_quote q2" "ci_eq rid idtext"
    by blast
  then show "\<exists>tag ws ideq q1 idtext q2 rest.
         drop i tpl = tag @ ws @ ideq @ [q1] @ idtext @ [q2] @ rest \<and>
         ci_eq ''<div'' tag \<and> ws \<noteq> [] \<and> list_all js_whitespace ws \<and> ci_eq ''id='' ideq \<and>
         is_quote q1 \<and> is_quote q2 \<and> ci_eq rid idtext"
    by blast
qed

text \<open>
  Claim C10 as stated fails: the id \<^verbatim>\<open>APP\<close> matches the element \<^verbatim>\<open><div id="app" ...>\<close>,
  whose id differs from it, and the merge fills that element.
\<close>

definition upper_render :: MergeContext where
  "upper_render = product_render\<lparr>mountInfo := \<lparr> rootElementId = ''APP'' \<rparr>\<rparr>"

theorem case_insensitive_match_counterexample:
  "regex_search (rootElementId (mountInfo upper_render)) (template upper_render) = Some (6, 31) \<and>
   take 17 (drop 6 (template upper_render)) = ''<div id='' @ [CHR 0x22] @ ''app'' @ [CHR 0x22] @ '' cla'' \<and>
   ''app'' \<noteq> rootElementId (mountInfo upper_render) \<and>
   mergeLiquidTemplate upper_render =
     Inr (''<body><div id='' @ [CHR 0x22] @ ''app'' @ [CHR 0x22] @
          '' class=x><style></style><p>hi</p></div></body>'')"
  by code_simp

text \<open>An id with a dot: the dot matches a dot only.\<close>

definition dotted_page :: string where
  "dotted_page = ''<p><div  id='' @ [CHR 0x27] @ ''a.b'' @ [CHR 0x27] @ ''>x</div></p>''"

theorem escaped_id_matches_up_to_letter_case_witness:
  "escapeRegex ''a.b'' = [CHR ''a'', CHR 0x5C, CHR ''.'', CHR ''b''] \<and>
   pattern_literal (escapeRegex ''a.b'') = Some ''a.b'' \<and>
   regex_search ''a.b'' dotted_page = Some (3, 22) \<and>
   regex_search ''aXb'' dotted_page = None \<and>
   (\<exists>tag ws ideq q1 idtext q2 rest.
         drop 3 dotted_page = tag @ ws @ ideq @ [q1] @ idtext @ [q2] @ rest \<and>
         ci_eq ''<div'' tag \<and> ws \<noteq> [] \<and> list_all js_whitespace ws \<and> ci_eq ''id='' ideq \<and>
         is_quote q1 \<and> is_quote q2 \<and> ci_eq ''a.b'' idtext)"
proof -
  have a: "escapeRegex ''a.b'' = [CHR ''a'', CHR 0x5C, CHR ''.'', CHR ''b'']" by code_simp
  have b: "regex_search ''a.b'' dotted_page = Some (3, 22)" by code_simp
  have c: "regex_search ''aXb'' dotted_page = None" by code_simp
  note main = escaped_id_matches_up_to_letter_case [of "''a.b''" dotted_page 3 22]
  from main have d: "pattern_literal (escapeRegex ''a.b'') = Some ''a.b''" by (rule conjunct1)
  from main b have e: "\<exists>tag ws ideq q1 idtext q2 rest.
         drop 3 dotted_page = tag @ ws @ ideq @ [q1] @ idtext @ [q2] @ rest \<and>
         ci_eq ''<div'' tag \<and> ws \<noteq> [] \<and> list_all js_whitespace ws \<and> ci_eq ''id='' ideq \<and>
         is_quote q1 \<and> is_quote q2 \<and> ci_eq ''a.b'' idtext"
    by (elim conjE impE) assumption
  from a d b c e show ?thesis by (intro conjI)
qed


section \<open>The worker process\<close>

text \<open>
  One run of \<^verbatim>\<open>main\<close> in the worker. Its result is the exit code and the calls of
  \<^verbatim>\<open>mkdir\<close> and \<^verbatim>\<open>writeFile\<close> it has made, in order: these are its only writes to the file
  system. \<^verbatim>\<open>exitWithError\<close> prints and calls \<^verbatim>\<open>process.exit(1)\<close>, so nothing after it runs.
\<close>

datatype fs_op = Mkdir string | WriteFile string string

record worker_result =
  exit_code :: nat
  fs_ops :: "fs_op list"

text \<open>
  What the worker gets from outside. \<^verbatim>\<open>readFile\<close> returns the content, fails with
  \<^verbatim>\<open>ENOENT\<close>, or fails otherwise. The value of the configured export is falsy, not an
  object, or an object, of which the model keeps whether it has the key \<^verbatim>\<open>node\<close> and
  the string under the key \<^verbatim>\<open>rootElementId\<close>, if any. The fields of \<open>worker_env\<close> are the
  functions of \<^verbatim>\<open>path\<close>, \<^verbatim>\<open>JSON.parse\<close>, the \<^verbatim>\<open>require\<close> of the entry point, the rendering
  of its node to markup and style tags, \<^verbatim>\<open>format\<close> of Prettier (\<open>None\<close> where they throw),
  \<^verbatim>\<open>readFile\<close>, whether \<^verbatim>\<open>mkdir\<close> and \<^verbatim>\<open>writeFile\<close> succeed, and \<^verbatim>\<open>mergePHPTemplate\<close>,
  whose file is not among the sources.
\<close>

datatype read_result = FileContent string | NoEntry | ReadError

datatype js_export = NoExport | NotAnObject | ExportObject bool "string option"

record worker_env =
  worker_parse_dir :: "string \<Rightarrow> string"
  worker_parse_name :: "string \<Rightarrow> string"
  worker_join :: "string \<Rightarrow> string \<Rightarrow> string"
  worker_resolve :: "string \<Rightarrow> string \<Rightarrow> string"
  worker_dirname :: "string \<Rightarrow> string"
  json_parse :: "string \<Rightarrow> RenderConfig option"
  require_module :: "string \<Rightarrow> (string \<Rightarrow> js_export) option"
  render_markup :: "string \<Rightarrow> (string \<times> string) option"
  prettier_format :: "string option \<Rightarrow> string \<Rightarrow> string option"
  read_file :: "string \<Rightarrow> read_result"
  mkdir_ok :: "string \<Rightarrow> bool"
  write_ok :: "string \<Rightarrow> bool"
  mergePHPTemplate :: "MergeContext \<Rightarrow> string + string"

text \<open>
  \<open>worker_prepare\<close> is \<^verbatim>\<open>main\<close> up to the template: arguments, configuration, paths,
  module, export, rendering, formatting, template. \<open>Inl\<close> is a call of \<^verbatim>\<open>exitWithError\<close>
  with that message. \<open>or_default v d\<close> is \<^verbatim>\<open>v || d\<close>.
\<close>

record prepared =
  p_config :: RenderConfig
  p_outputPath :: string
  p_absoluteOutputPath :: string
  p_context :: MergeContext

definition or_default :: "string option \<Rightarrow> string \<Rightarrow> string" where
  "or_default v d = (case v of None \<Rightarrow> d | Some s \<Rightarrow> if s \<noteq> [] then s else d)"

definition format_markup :: "worker_env \<Rightarrow> RenderConfig \<Rightarrow> string \<times> string \<Rightarrow> string + string \<times> string" where
  "format_markup env config rendered =
     (if prettierConfig config \<noteq> Some PrettierOff then
        (let prettierOptions = (case prettierConfig config of
                                  Some (PrettierOptions opts) \<Rightarrow> Some opts
                                | _ \<Rightarrow> None)
         in case prettier_format env prettierOptions (fst rendered) of
              None \<Rightarrow> Inl ''Prettier formatting failed''
            | Some html \<Rightarrow>
                if snd rendered \<noteq> [] then
                  (case prettier_format env prettierOptions (snd rendered) of
                     None \<Rightarrow> Inl ''Prettier formatting failed''
                   | Some formattedStyles \<Rightarrow> Inr (html, formattedStyles))
                else Inr (html, snd rendered))
      else Inr rendered)"

definition load_template :: "worker_env \<Rightarrow> RenderConfig \<Rightarrow> string \<Rightarrow> string + string" where
  "load_template env config templatePath =
     (case read_file env templatePath of
        FileContent t \<Rightarrow> Inr t
      | NoEntry \<Rightarrow>
          (if or_default (defaultTemplate config) [] \<noteq> [] then
             (let defaultTemplatePath = worker_join env (templateDir config) (or_default (defaultTemplate config) [])
              in case read_file env defaultTemplatePath of
                   FileContent t \<Rightarrow> Inr t
                 | _ \<Rightarrow> Inl (''Template not found: '' @ templatePath @
                             '' and default template not found: '' @ defaultTemplatePath))
           else Inl (''Template not found: '' @ templatePath))
      | ReadError \<Rightarrow> Inl ''Failed to read template'')"

definition worker_prepare :: "worker_env \<Rightarrow> string list \<Rightarrow> string + prepared" where
  "worker_prepare env argv =
     (case drop 2 argv of
        [] \<Rightarrow> Inl ''Required arguments: filePath configJson''
      | [file] \<Rightarrow> Inl ''Required arguments: filePath configJson''
      | file # configJson # others \<Rightarrow>
          if file = [] \<or> configJson = [] then Inl ''Required arguments: filePath configJson''
          else
            (case json_parse env configJson of
               None \<Rightarrow> Inl ''Invalid config JSON''
             | Some config \<Rightarrow>
                 (let outputExtension = or_default (templateExtension config) ''.html'';
                      outputPath = worker_join env (worker_parse_dir env file)
                                     (worker_parse_name env file @ outputExtension);
                      absoluteInputPath = worker_resolve env (entryPointDir config) file;
                      absoluteOutputPath = worker_join env (outputDir config) outputPath
                  in case require_module env absoluteInputPath of
                       None \<Rightarrow> Inl ''Failed to load module''
                     | Some module \<Rightarrow>
                         (let exportName = or_default (mountInfoExport config) ''default''
                          in case module exportName of
                               ExportObject True (Some rid) \<Rightarrow>
                                 (case render_markup env absoluteInputPath of
                                    None \<Rightarrow> Inl ''Failed to render React component''
                                  | Some rendered \<Rightarrow>
                                      (case format_markup env config rendered of
                                         Inl e \<Rightarrow> Inl e
                                       | Inr formatted \<Rightarrow>
                                           if templateDir config = [] then Inl ''Template directory not configured''
                                           else
                                             (case load_template env config
                                                     (worker_join env (templateDir config) outputPath) of
                                                Inl e \<Rightarrow> Inl e
                                              | Inr t \<Rightarrow>
                                                  Inr \<lparr> p_config = config,
                                                        p_outputPath = outputPath,
                                                        p_absoluteOutputPath = absoluteOutputPath,
                                                        p_context = \<lparr> template = t,
                                                                      content = fst formatted,
                                                                      styles = snd formatted,
                                                                      mountInfo = \<lparr> rootElementId = rid \<rparr> \<rparr> \<rparr>)))
                             | _ \<Rightarrow> Inl (''Invalid export '' @ [CHR 0x27] @ exportName @ [CHR 0x27] @
                                          '': must contain node and rootElementId'')))))"

text \<open>
  The \<^verbatim>\<open>switch\<close> on \<^verbatim>\<open>config.templateEngine\<close>, the write step, and \<^verbatim>\<open>main\<close>.
\<close>

definition worker_merge :: "worker_env \<Rightarrow> RenderConfig \<Rightarrow> MergeContext \<Rightarrow> string + string" where
  "worker_merge env config mergeContext =
     (if templateEngine config = ''liquid'' then mergeLiquidTemplate mergeContext
      else if templateEngine config = ''php'' then mergePHPTemplate env mergeContext
      else if templateEngine config = ''html'' then mergeHTMLTemplate mergeContext
      else Inl (''Unknown template engine type: '' @ templateEngine config))"

definition worker_write :: "worker_env \<Rightarrow> string \<Rightarrow> string \<Rightarrow> worker_result" where
  "worker_write env absoluteOutputPath finalHtml =
     (if \<not> mkdir_ok env (worker_dirname env absoluteOutputPath) then
        \<lparr> exit_code = 1, fs_ops = [Mkdir (worker_dirname env absoluteOutputPath)] \<rparr>
      else if \<not> write_ok env absoluteOutputPath then
        \<lparr> exit_code = 1, fs_ops = [Mkdir (worker_dirname env absoluteOutputPath),
                                   WriteFile absoluteOutputPath finalHtml] \<rparr>
      else
        \<lparr> exit_code = 0, fs_ops = [Mkdir (worker_dirname env absoluteOutputPath),
                                   WriteFile absoluteOutputPath finalHtml] \<rparr>)"

definition worker_main :: "worker_env \<Rightarrow> string list \<Rightarrow> worker_result" where
  "worker_main env argv =
     (case worker_prepare env argv of
        Inl e \<Rightarrow> \<lparr> exit_code = 1, fs_ops = [] \<rparr>
      | Inr p \<Rightarrow>
          (case worker_merge env (p_config p) (p_context p) of
             Inl e \<Rightarrow> \<lparr> exit_code = 1, fs_ops = [] \<rparr>
           | Inr finalHtml \<Rightarrow> worker_write env (p_absoluteOutputPath p) finalHtml))"

text \<open>
  Claim C9. When the merge step of a render task fails, the worker exits with code 1
  and has made no call of \<^verbatim>\<open>mkdir\<close> or \<^verbatim>\<open>writeFile\<close>: the output file, or its absence, is
  as it was. The write step is reached only after a merge that returned a document.
\<close>

theorem failed_merge_writes_nothing:
  "(worker_prepare env argv = Inr p \<and> worker_merge env (p_config p) (p_context p) = Inl e \<longrightarrow>
      worker_main env argv = \<lparr> exit_code = 1, fs_ops = [] \<rparr>) \<and>
   (fs_ops (worker_main env argv) \<noteq> [] \<longrightarrow>
      (\<exists>q finalHtml. worker_prepare env argv = Inr q \<and>
         worker_merge env (p_config q) (p_context q) = Inr finalHtml))"
  by (auto simp: worker_main_def split: sum.splits)

text \<open>
  The entry point \<^verbatim>\<open>product.tsx\<close> with the template of id \<^verbatim>\<open>app\<close>: exporting the id
  \<^verbatim>\<open>root\<close> the merge fails and nothing is written; exporting \<^verbatim>\<open>app\<close> the document is
  written.
\<close>

definition example_dir :: "string \<Rightarrow> string" where
  "example_dir p = rev (drop 1 (dropWhile (\<lambda>c. c \<noteq> CHR ''/'') (rev p)))"

definition example_module :: "string \<Rightarrow> string \<Rightarrow> js_export" where
  "example_module rid exportName = (if exportName = ''default'' then ExportObject True (Some rid) else NoExport)"

definition example_worker :: "string \<Rightarrow> worker_env" where
  "example_worker rid =
     \<lparr> worker_parse_dir = example_dir,
       worker_parse_name = example_name,
       worker_join = example_join,
       worker_resolve = (\<lambda>a b. ''/p/'' @ a @ ''/'' @ b),
       worker_dirname = example_dir,
       json_parse = (\<lambda>s. if s = ''{...}'' then Some example_config else None),
       require_module = (\<lambda>p. if p = ''/p/ep/product.tsx'' then Some (example_module rid) else None),
       render_markup = (\<lambda>p. Some (''<p>hi</p>'', [])),
       prettier_format = (\<lambda>opts s. Some s),
       read_file = (\<lambda>p. if p = ''templates/product.html'' then FileContent page else NoEntry),
       mkdir_ok = (\<lambda>p. True),
       write_ok = (\<lambda>p. True),
       mergePHPTemplate = mergeLiquidTemplate \<rparr>"

definition example_argv :: "string list" where
  "example_argv = [''node'', ''worker.js'', ''product.tsx'', ''{...}'']"

definition product_prepared :: prepared where
  "product_prepared =
     \<lparr> p_config = example_config, p_outputPath = ''product.html'',
       p_absoluteOutputPath = ''dist/product.html'',
       p_context = \<lparr> template = page, content = ''<p>hi</p>'', styles = [],
                     mountInfo = \<lparr> rootElementId = ''root'' \<rparr> \<rparr> \<rparr>"

lemma product_is_prepared: "worker_prepare (example_worker ''root'') example_argv = Inr product_prepared"
  by code_simp

lemma product_merge_fails:
  "worker_merge (example_worker ''root'') (p_config product_prepared) (p_context product_prepared) =
     Inl (''Could not find <div id='' @ [CHR 0x22] @ ''root'' @ [CHR 0x22] @ ''> in template'')"
  by code_simp

lemma app_is_written:
  "fs_ops (worker_main (example_worker ''app'') example_argv) =
     [Mkdir ''dist'',
      WriteFile ''dist/product.html''
        (''<body><div id='' @ [CHR 0x22] @ ''app'' @ [CHR 0x22] @ '' class=x><p>hi</p></div></body>'')]"
  by code_simp

theorem failed_merge_writes_nothing_witness:
  "worker_prepare (example_worker ''root'') example_argv = Inr product_prepared \<and>
   worker_merge (example_worker ''root'') (p_config product_prepared) (p_context product_prepared) =
     Inl (''Could not find <div id='' @ [CHR 0x22] @ ''root'' @ [CHR 0x22] @ ''> in template'') \<and>
   worker_main (example_worker ''root'') example_argv = \<lparr> exit_code = 1, fs_ops = [] \<rparr> \<and>
   fs_ops (worker_main (example_worker ''app'') example_argv) \<noteq> [] \<and>
   (\<exists>q finalHtml. worker_prepare (example_worker ''app'') example_argv = Inr q \<and>
      worker_merge (example_worker ''app'') (p_config q) (p_context q) = Inr finalHtml)"
proof -
  note main = failed_merge_writes_nothing [of "example_worker ''root''" example_argv product_prepared
      "''Could not find <div id='' @ [CHR 0x22] @ ''root'' @ [CHR 0x22] @ ''> in template''"]
  from main product_is_prepared product_merge_fails
  have a: "worker_main (example_worker ''root'') example_argv = \<lparr> exit_code = 1, fs_ops = [] \<rparr>"
    by blast
  have b: "fs_ops (worker_main (example_worker ''app'') example_argv) \<noteq> []"
    by (simp add: app_is_written)
  note main' = failed_merge_writes_nothing [of "example_worker ''app''" example_argv]
  from main' b have c: "\<exists>q finalHtml. worker_prepare (example_worker ''app'') example_argv = Inr q \<and>
      worker_merge (example_worker ''app'') (p_config q) (p_context q) = Inr finalHtml"
    by blast
  from product_is_prepared product_merge_fails a b c show ?thesis by (intro conjI)
qed


end
